theory Spec2Isabelle
  imports Complex_Main "HOL-Library.AList"
begin

section \<open>JavaScript values, strings and errors\<close>

text \<open>
  A JavaScript string is modelled as an Isabelle \<open>string\<close>: one \<open>char\<close> per code unit,
  for code units below 256. The raw configuration maps a key to a string, as the type
  \<^verbatim>\<open>RawConfig\<close> of \<^verbatim>\<open>config.ts\<close> declares; \<open>None\<close> is JavaScript's \<^verbatim>\<open>undefined\<close>.
  What a parser returns is a \<open>jsval\<close>. The numbers of this program are the non-negative
  integers that \<^verbatim>\<open>Number\<close> reads from a string of digits, modelled as \<open>nat\<close>.
\<close>

datatype jsval = Undefined | Str string | Num nat | Bool bool

record net_error =
  code :: "string option"
  hostname :: "string option"
  syscall :: "string option"

text \<open>
  \<open>KnownError\<close> is the class of \<^verbatim>\<open>error.js\<close>, carrying its message; \<open>SyntaxError\<close> is
  what \<^verbatim>\<open>JSON.parse\<close> throws; \<open>RequestError\<close> is an error event of the HTTPS request.
\<close>

datatype error = KnownError string | SyntaxError string | RequestError net_error

definition isDigit :: "char \<Rightarrow> bool" where
  "isDigit c = (48 \<le> (of_char c :: nat) \<and> (of_char c :: nat) \<le> 57)"

definition isLower :: "char \<Rightarrow> bool" where
  "isLower c = (97 \<le> (of_char c :: nat) \<and> (of_char c :: nat) \<le> 122)"

definition isUpper :: "char \<Rightarrow> bool" where
  "isUpper c = (65 \<le> (of_char c :: nat) \<and> (of_char c :: nat) \<le> 90)"

text \<open>The class \<^verbatim>\<open>\w\<close>: letters, digits and the underscore.\<close>

definition isWordChar :: "char \<Rightarrow> bool" where
  "isWordChar c = (isLower c \<or> isUpper c \<or> isDigit c \<or> c = CHR ''_'')"

text \<open>
  White space and line terminators of \<^verbatim>\<open>String.prototype.trim\<close> among the code units
  below 256: tab, line feed, vertical tab, form feed, carriage return, space and the
  no-break space.
\<close>

definition isWhiteSpace :: "char \<Rightarrow> bool" where
  "isWhiteSpace c = ((of_char c :: nat) \<in> {9, 10, 11, 12, 13, 32, 160})"

text \<open>
  \<^verbatim>\<open>toLowerCase\<close> on one code unit below 256: the letters A to Z, and the capital letters
  of the Latin-1 block (192 to 222 without the multiplication sign 215).
\<close>

definition toLowerChar :: "char \<Rightarrow> char" where
  "toLowerChar c =
     (let n = (of_char c :: nat) in
      if (65 \<le> n \<and> n \<le> 90) \<or> (192 \<le> n \<and> n \<le> 222 \<and> n \<noteq> 215)
      then char_of (n + 32) else c)"

definition toLowerCase :: "string \<Rightarrow> string" where
  "toLowerCase s = map toLowerChar s"

definition startsWith :: "string \<Rightarrow> string \<Rightarrow> bool" where
  "startsWith s p = (take (length p) s = p)"

text \<open>\<^verbatim>\<open>/^\d+$/.test(s)\<close>\<close>

definition test_digits :: "string \<Rightarrow> bool" where
  "test_digits s = (s \<noteq> [] \<and> list_all isDigit s)"

text \<open>\<^verbatim>\<open>/^[a-z-]+$/i.test(s)\<close>\<close>

definition test_locale :: "string \<Rightarrow> bool" where
  "test_locale s = (s \<noteq> [] \<and> list_all (\<lambda>c. isLower c \<or> isUpper c \<or> c = CHR ''-'') s)"

text \<open>\<^verbatim>\<open>/^https?:\/\//.test(s)\<close>\<close>

definition test_http_url :: "string \<Rightarrow> bool" where
  "test_http_url s = (startsWith s ''http://'' \<or> startsWith s ''https://'')"

text \<open>
  \<^verbatim>\<open>Number(s)\<close> on a string of decimal digits. The value is exact below \<open>2 ^ 53\<close>; above,
  JavaScript rounds to a double, which the comparisons with 0, 5, 20 and 500 of the
  parsers do not see.
\<close>

definition digitValue :: "char \<Rightarrow> nat" where
  "digitValue c = (of_char c :: nat) - 48"

definition Number_digits :: "string \<Rightarrow> nat" where
  "Number_digits s = foldl (\<lambda>n c. 10 * n + digitValue c) 0 s"

text \<open>A non-negative integer in a template literal: its decimal digits.\<close>

definition digitChar :: "nat \<Rightarrow> char" where
  "digitChar d = ''0123456789'' ! d"

fun String_nat :: "nat \<Rightarrow> string" where
  "String_nat n =
     (if n < 10 then [digitChar n]
      else String_nat (n div 10) @ [digitChar (n mod 10)])"

declare String_nat.simps [simp del]

section \<open>The configuration store\<close>

text \<open>
  \<^verbatim>\<open>parseAssert\<close> throws a \<open>KnownError\<close> naming the property when the condition does
  not hold.
\<close>

definition parseAssert :: "string \<Rightarrow> bool \<Rightarrow> string \<Rightarrow> error + unit" where
  "parseAssert name condition message =
     (if \<not> condition
      then Inl (KnownError (''Invalid config property '' @ name @ '': '' @ message))
      else Inr ())"

text \<open>\<^verbatim>\<open>!x\<close> for an optional string: undefined or the empty string.\<close>

definition falsy :: "string option \<Rightarrow> bool" where
  "falsy x = (case x of None \<Rightarrow> True | Some s \<Rightarrow> s = [])"

definition commitTypes :: "string list" where
  "commitTypes = ['''', ''conventional'']"

definition parse_OPENAI_KEY :: "string option \<Rightarrow> error + jsval" where
  "parse_OPENAI_KEY key =
     (if falsy key then Inr (Str '''')
      else case parseAssert ''OPENAI_KEY'' (startsWith (the key) ''sk-'')
                  ''Must start with \"sk-\"'' of
             Inl e \<Rightarrow> Inl e
           | Inr _ \<Rightarrow> Inr (Str (the key)))"

definition parse_locale :: "string option \<Rightarrow> error + jsval" where
  "parse_locale locale =
     (if falsy locale then Inr (Str ''en'')
      else case parseAssert ''locale'' (the locale \<noteq> []) ''Cannot be empty'' of
             Inl e \<Rightarrow> Inl e
           | Inr _ \<Rightarrow>
        (case parseAssert ''locale'' (test_locale (the locale))
                ''Must be a valid locale (letters and dashes/underscores). You can consult the list of codes in: https://wikipedia.org/wiki/List_of_ISO_639-1_codes'' of
             Inl e \<Rightarrow> Inl e
           | Inr _ \<Rightarrow> Inr (Str (the locale))))"

definition parse_generate :: "string option \<Rightarrow> error + jsval" where
  "parse_generate count =
     (if falsy count then Inr (Num 1)
      else case parseAssert ''generate'' (test_digits (the count)) ''Must be an integer'' of
             Inl e \<Rightarrow> Inl e
           | Inr _ \<Rightarrow>
        (let parsed = Number_digits (the count) in
         case parseAssert ''generate'' (parsed > 0) ''Must be greater than 0'' of
             Inl e \<Rightarrow> Inl e
           | Inr _ \<Rightarrow>
        (case parseAssert ''generate'' (parsed \<le> 5) ''Must be less or equal to 5'' of
             Inl e \<Rightarrow> Inl e
           | Inr _ \<Rightarrow> Inr (Num parsed))))"

definition parse_type :: "string option \<Rightarrow> error + jsval" where
  "parse_type type =
     (if falsy type then Inr (Str '''')
      else case parseAssert ''type'' (the type \<in> set commitTypes) ''Invalid commit type'' of
             Inl e \<Rightarrow> Inl e
           | Inr _ \<Rightarrow> Inr (Str (the type)))"

definition parse_proxy :: "string option \<Rightarrow> error + jsval" where
  "parse_proxy url =
     (if falsy url \<or> length (the url) = 0 then Inr Undefined
      else case parseAssert ''proxy'' (test_http_url (the url)) ''Must be a valid URL'' of
             Inl e \<Rightarrow> Inl e
           | Inr _ \<Rightarrow> Inr (Str (the url)))"

definition parse_model :: "string option \<Rightarrow> error + jsval" where
  "parse_model model =
     (if falsy model \<or> length (the model) = 0 then Inr (Str ''gpt-3.5-turbo'')
      else Inr (Str (the model)))"

definition parse_timeout :: "string option \<Rightarrow> error + jsval" where
  "parse_timeout timeout =
     (if falsy timeout then Inr (Num 10000)
      else case parseAssert ''timeout'' (test_digits (the timeout)) ''Must be an integer'' of
             Inl e \<Rightarrow> Inl e
           | Inr _ \<Rightarrow>
        (let parsed = Number_digits (the timeout) in
         case parseAssert ''timeout'' (parsed \<ge> 500) ''Must be greater than 500ms'' of
             Inl e \<Rightarrow> Inl e
           | Inr _ \<Rightarrow> Inr (Num parsed)))"

definition parse_max_length :: "string option \<Rightarrow> error + jsval" where
  "parse_max_length maxLength =
     (if falsy maxLength then Inr (Num 50)
      else case parseAssert ''max-length'' (test_digits (the maxLength))
                  ''Must be an integer'' of
             Inl e \<Rightarrow> Inl e
           | Inr _ \<Rightarrow>
        (let parsed = Number_digits (the maxLength) in
         case parseAssert ''max-length'' (parsed \<ge> 20)
                ''Must be greater than 20 characters'' of
             Inl e \<Rightarrow> Inl e
           | Inr _ \<Rightarrow> Inr (Num parsed)))"

text \<open>
  The gateway flag tests \<^verbatim>\<open>useAzure === undefined\<close>, not \<^verbatim>\<open>!useAzure\<close>: the empty string
  reaches the assertion.
\<close>

definition parse_USE_AZURE :: "string option \<Rightarrow> error + jsval" where
  "parse_USE_AZURE useAzure =
     (if useAzure = None then Inr (Bool False)
      else let normalizedValue = toLowerCase (the useAzure) in
        case parseAssert ''USE_AZURE''
               (normalizedValue = ''true'' \<or> normalizedValue = ''false'')
               ''Must be true or false'' of
             Inl e \<Rightarrow> Inl e
           | Inr _ \<Rightarrow> Inr (Bool (normalizedValue = ''true'')))"

definition parse_AZURE_OPENAI_KEY :: "string option \<Rightarrow> error + jsval" where
  "parse_AZURE_OPENAI_KEY key =
     (if falsy key then Inr (Str '''')
      else case parseAssert ''AZURE_OPENAI_KEY'' (length (the key) > 0) ''Cannot be empty'' of
             Inl e \<Rightarrow> Inl e
           | Inr _ \<Rightarrow> Inr (Str (the key)))"

definition parse_AZURE_OPENAI_ENDPOINT :: "string option \<Rightarrow> error + jsval" where
  "parse_AZURE_OPENAI_ENDPOINT endpoint =
     (if falsy endpoint then Inr (Str '''')
      else case parseAssert ''AZURE_OPENAI_ENDPOINT'' (test_http_url (the endpoint))
                  ''Must be a valid URL'' of
             Inl e \<Rightarrow> Inl e
           | Inr _ \<Rightarrow> Inr (Str (the endpoint)))"

type_synonym parser = "string option \<Rightarrow> error + jsval"

definition configParsers :: "(string \<times> parser) list" where
  "configParsers =
     [(''OPENAI_KEY'', parse_OPENAI_KEY),
      (''locale'', parse_locale),
      (''generate'', parse_generate),
      (''type'', parse_type),
      (''proxy'', parse_proxy),
      (''model'', parse_model),
      (''timeout'', parse_timeout),
      (''max-length'', parse_max_length)]"

definition azureConfigParsers :: "(string \<times> parser) list" where
  "azureConfigParsers =
     [(''USE_AZURE'', parse_USE_AZURE),
      (''AZURE_OPENAI_KEY'', parse_AZURE_OPENAI_KEY),
      (''AZURE_OPENAI_ENDPOINT'', parse_AZURE_OPENAI_ENDPOINT)]"

text \<open>The spread of both tables; no key occurs in both, so the order is theirs.\<close>

definition combinedParsers :: "(string \<times> parser) list" where
  "combinedParsers = azureConfigParsers @ configParsers"

text \<open>
  The library \<^verbatim>\<open>ini\<close> is not part of the repository: its two functions are parameters.
  \<open>ini_parse\<close> reads the text of the file into the raw configuration, an object with
  string values in insertion order; \<open>ini_stringify\<close> writes an object back to text.
\<close>

record ini =
  ini_parse :: "string \<Rightarrow> (string \<times> string) list"
  ini_stringify :: "(string \<times> jsval) list \<Rightarrow> string"

text \<open>
  The file system holds at most the one file at \<^verbatim>\<open>configPath\<close>: \<open>None\<close> when it does not
  exist, its text otherwise.
\<close>

definition readConfigFile :: "ini \<Rightarrow> string option \<Rightarrow> (string \<times> string) list" where
  "readConfigFile lib file =
     (case file of None \<Rightarrow> [] | Some configString \<Rightarrow> ini_parse lib configString)"

text \<open>
  \<^verbatim>\<open>cliConfig?.[key] ?? config[key]\<close>: the overrides are an optional object; a key
  they do not have reads as \<^verbatim>\<open>undefined\<close> and falls through to the file's value.
\<close>

definition resolve ::
  "(string \<times> string) list option \<Rightarrow> (string \<times> string) list \<Rightarrow> string \<Rightarrow> string option" where
  "resolve cliConfig config key =
     (case (case cliConfig of None \<Rightarrow> None | Some c \<Rightarrow> map_of c key) of
        Some v \<Rightarrow> Some v
      | None \<Rightarrow> map_of config key)"

text \<open>
  The loop over \<^verbatim>\<open>Object.keys(combinedParsers)\<close>. With \<open>suppressErrors\<close> a parser's error
  is caught and the key is left out; without, the error leaves the function. The object
  \<^verbatim>\<open>parsedConfig\<close> is an association list in insertion order.
\<close>

fun getConfig_loop ::
  "bool \<Rightarrow> (string \<Rightarrow> string option) \<Rightarrow> (string \<times> parser) list \<Rightarrow> (string \<times> jsval) list
     \<Rightarrow> error + (string \<times> jsval) list" where
  "getConfig_loop suppressErrors val [] parsedConfig = Inr parsedConfig"
| "getConfig_loop suppressErrors val ((key, parser) # rest) parsedConfig =
     (if suppressErrors then
        (case parser (val key) of
           Inl e \<Rightarrow> getConfig_loop suppressErrors val rest parsedConfig
         | Inr v \<Rightarrow> getConfig_loop suppressErrors val rest (AList.update key v parsedConfig))
      else
        (case parser (val key) of
           Inl e \<Rightarrow> Inl e
         | Inr v \<Rightarrow> getConfig_loop suppressErrors val rest (AList.update key v parsedConfig)))"

text \<open>Reading a property of an object: \<^verbatim>\<open>undefined\<close> when the key is absent.\<close>

definition getProp :: "(string \<times> jsval) list \<Rightarrow> string \<Rightarrow> jsval" where
  "getProp obj key = (case map_of obj key of None \<Rightarrow> Undefined | Some v \<Rightarrow> v)"

fun truthy :: "jsval \<Rightarrow> bool" where
  "truthy Undefined = False"
| "truthy (Str s) = (s \<noteq> [])"
| "truthy (Num n) = (n \<noteq> 0)"
| "truthy (Bool b) = b"

definition msg_set_OPENAI_KEY :: string where
  "msg_set_OPENAI_KEY = ''Please set your OpenAI API key via `aicommits config set OPENAI_KEY=<your token>` or set your Azure OpenAI configurations.''"

definition msg_set_AZURE_OPENAI_KEY :: string where
  "msg_set_AZURE_OPENAI_KEY = ''Please set your Azure OpenAI configurations via aicommits config set AZURE_OPENAI_KEY=<your token>''"

definition msg_set_AZURE_OPENAI_ENDPOINT :: string where
  "msg_set_AZURE_OPENAI_ENDPOINT =
     ''Please set your Azure OpenAI configurations via aicommits config set AZURE_OPENAI_ENDPOINT=''
     @ [CHR 0x27] @ ''<your-deployment-full-url>'' @ [CHR 0x27]"

text \<open>
  The checks of \<^verbatim>\<open>getConfig\<close> after the loop, one statement after the other; a
  \<^verbatim>\<open>throw\<close> is \<open>Inl\<close>.
\<close>

definition getConfig_checks ::
  "bool \<Rightarrow> (string \<times> jsval) list \<Rightarrow> error + (string \<times> jsval) list" where
  "getConfig_checks suppressErrors parsedConfig =
     (let openaiKey = getProp parsedConfig ''OPENAI_KEY'';
          useAzure = getProp parsedConfig ''USE_AZURE'' in
      case (if openaiKey = Str [] \<and> \<not> truthy useAzure
            then (if \<not> suppressErrors then Inl (KnownError msg_set_OPENAI_KEY) else Inr ())
            else Inr ()) of
        Inl e \<Rightarrow> Inl e
      | Inr _ \<Rightarrow>
         (let azureOpenaiKey = getProp parsedConfig ''AZURE_OPENAI_KEY'';
              azureOpenaiEndpoint = getProp parsedConfig ''AZURE_OPENAI_ENDPOINT'' in
          case (if truthy useAzure
                then (if \<not> suppressErrors
                      then (if azureOpenaiKey = Str []
                            then Inl (KnownError msg_set_AZURE_OPENAI_KEY)
                            else if azureOpenaiEndpoint = Str []
                            then Inl (KnownError msg_set_AZURE_OPENAI_ENDPOINT)
                            else Inr ())
                      else Inr ())
                else Inr ()) of
            Inl e \<Rightarrow> Inl e
          | Inr _ \<Rightarrow> Inr parsedConfig))"

definition getConfig ::
  "ini \<Rightarrow> string option \<Rightarrow> (string \<times> string) list option \<Rightarrow> bool
     \<Rightarrow> error + (string \<times> jsval) list" where
  "getConfig lib file cliConfig suppressErrors =
     (let config = readConfigFile lib file in
      case getConfig_loop suppressErrors (resolve cliConfig config) combinedParsers [] of
        Inl e \<Rightarrow> Inl e
      | Inr parsedConfig \<Rightarrow> getConfig_checks suppressErrors parsedConfig)"

text \<open>
  \<^verbatim>\<open>setConfigs\<close>: the loop over the pairs works on the object read from the file, and
  stores what the parser returns (\<^verbatim>\<open>parsed as any\<close>) under the key, in place when the
  key is there and at the end when it is not.
\<close>

fun setConfigs_loop ::
  "(string \<times> string) list \<Rightarrow> (string \<times> jsval) list \<Rightarrow> error + (string \<times> jsval) list" where
  "setConfigs_loop [] config = Inr config"
| "setConfigs_loop ((key, v) # rest) config =
     (case map_of combinedParsers key of
        None \<Rightarrow> Inl (KnownError (''Invalid config property: '' @ key))
      | Some parser \<Rightarrow>
          (case parser (Some v) of
             Inl e \<Rightarrow> Inl e
           | Inr parsed \<Rightarrow> setConfigs_loop rest (AList.update key parsed config)))"

text \<open>
  The result of \<^verbatim>\<open>setConfigs\<close> and the file it leaves: the file is written after the loop,
  with the whole object.
\<close>

definition setConfigs ::
  "ini \<Rightarrow> string option \<Rightarrow> (string \<times> string) list \<Rightarrow> (error + unit) \<times> string option" where
  "setConfigs lib file keyValues =
     (let config = map (\<lambda>(k, v). (k, Str v)) (readConfigFile lib file) in
      case setConfigs_loop keyValues config of
        Inl e \<Rightarrow> (Inl e, file)
      | Inr config' \<Rightarrow> (Inr (), Some (ini_stringify lib config')))"

section \<open>The completion client\<close>

text \<open>
  \<^verbatim>\<open>ValidConfig\<close>, the type of the configuration that \<^verbatim>\<open>generateCommitMessage\<close> takes: every
  key with the type its parser returns. The lower-case keys carry the prefix \<open>cfg\<close>.
\<close>

record ValidConfig =
  USE_AZURE :: bool
  AZURE_OPENAI_KEY :: string
  AZURE_OPENAI_ENDPOINT :: string
  OPENAI_KEY :: string
  cfg_locale :: string
  cfg_generate :: nat
  cfg_type :: string
  cfg_proxy :: "string option"
  cfg_model :: string
  cfg_timeout :: nat
  cfg_max_length :: nat

datatype request_message = Message (role: string) (content: string)

record CreateChatCompletionRequest =
  req_model :: string
  req_messages :: "request_message list"
  req_temperature :: rat
  req_top_p :: nat
  req_frequency_penalty :: nat
  req_presence_penalty :: nat
  req_max_tokens :: nat
  req_stream :: bool
  req_n :: nat

text \<open>
  A choice of the response: \<^verbatim>\<open>message\<close> and its \<^verbatim>\<open>content\<close> may each be missing, which
  \<^verbatim>\<open>choice.message?.content\<close> reads as \<^verbatim>\<open>undefined\<close>.
\<close>

datatype response_message = ResponseMessage (response_content: "string option")

datatype choice = Choice (choice_message: "response_message option")

record CreateChatCompletionResponse =
  choices :: "choice list"

text \<open>
  What \<^verbatim>\<open>https.request\<close> is called with: the URL, the options and the body written to
  the request. The agent is the proxy URL given to \<^verbatim>\<open>createHttpsProxyAgent\<close>.
\<close>

record https_call =
  call_url :: string
  call_port :: nat
  call_method :: string
  call_headers :: "(string \<times> string) list"
  call_timeout :: nat
  call_agent :: "string option"
  call_body :: string

record IncomingMessage =
  statusCode :: "nat option"
  statusMessage :: "string option"

text \<open>
  How the request ends: the response has been read to its end, with the body received;
  or the request emits an error; or it emits a timeout.
\<close>

datatype outcome =
  ResponseEnd IncomingMessage string
| ErrorEvent net_error
| TimeoutEvent

text \<open>
  What the client takes from outside: the prompt generator of \<^verbatim>\<open>prompt.js\<close>,
  \<^verbatim>\<open>JSON.stringify\<close> and \<^verbatim>\<open>JSON.parse\<close> (\<open>Inl\<close> is the message of its \<open>SyntaxError\<close>),
  and the network, which answers a call with an outcome.
\<close>

record env =
  generatePrompt :: "string \<Rightarrow> nat \<Rightarrow> string \<Rightarrow> string"
  JSON_stringify :: "CreateChatCompletionRequest \<Rightarrow> string"
  JSON_parse :: "string \<Rightarrow> string + CreateChatCompletionResponse"
  https_request :: "https_call \<Rightarrow> outcome"

text \<open>\<^verbatim>\<open>Buffer.byteLength\<close>: the length in UTF-8, two bytes for a code unit from 128 to 255.\<close>

definition byteLength :: "string \<Rightarrow> nat" where
  "byteLength s = sum_list (map (\<lambda>c. if (of_char c :: nat) < 128 then 1 else 2) s)"

text \<open>An optional value in a template literal.\<close>

definition template_nat :: "nat option \<Rightarrow> string" where
  "template_nat x = (case x of None \<Rightarrow> ''undefined'' | Some n \<Rightarrow> String_nat n)"

definition template_string :: "string option \<Rightarrow> string" where
  "template_string x = (case x of None \<Rightarrow> ''undefined'' | Some s \<Rightarrow> s)"

definition msg_timeout :: "nat \<Rightarrow> string" where
  "msg_timeout timeout =
     ''Time out error: request took over '' @ String_nat timeout @
     ''ms. Try increasing the `timeout` config, or checking the OpenAI API status https://status.openai.com''"

text \<open>The call that \<^verbatim>\<open>httpsPost\<close> makes of its arguments.\<close>

definition httpsPost_call ::
  "env \<Rightarrow> string \<Rightarrow> (string \<times> string) list \<Rightarrow> CreateChatCompletionRequest \<Rightarrow> nat
     \<Rightarrow> string option \<Rightarrow> https_call" where
  "httpsPost_call world url headers json timeout proxy =
     (let postContent = JSON_stringify world json in
      \<lparr>call_url = url,
       call_port = 443,
       call_method = ''POST'',
       call_headers =
         AList.update ''Content-Length'' (String_nat (byteLength postContent))
           (AList.update ''Content-Type'' ''application/json'' headers),
       call_timeout = timeout,
       call_agent = (if \<not> falsy proxy then proxy else None),
       call_body = postContent\<rparr>)"

text \<open>
  \<^verbatim>\<open>httpsPost\<close> returns what its promise settles with, and the calls it has sent.
\<close>

definition httpsPost ::
  "env \<Rightarrow> string \<Rightarrow> (string \<times> string) list \<Rightarrow> CreateChatCompletionRequest \<Rightarrow> nat
     \<Rightarrow> string option \<Rightarrow> (error + IncomingMessage \<times> string) \<times> https_call list" where
  "httpsPost world url headers json timeout proxy =
     (let request = httpsPost_call world url headers json timeout proxy in
      (case https_request world request of
         ResponseEnd response body \<Rightarrow> Inr (response, body)
       | ErrorEvent err \<Rightarrow> Inl (RequestError err)
       | TimeoutEvent \<Rightarrow> Inl (KnownError (msg_timeout timeout)),
       [request]))"

definition createChatCompletion ::
  "env \<Rightarrow> bool \<Rightarrow> string \<Rightarrow> string \<Rightarrow> CreateChatCompletionRequest \<Rightarrow> nat \<Rightarrow> string option
     \<Rightarrow> (error + CreateChatCompletionResponse) \<times> https_call list" where
  "createChatCompletion world useAzure url apiKey json timeout proxy =
     (let headers = (if useAzure then [(''api-key'', apiKey)]
                     else [(''Authorization'', ''Bearer '' @ apiKey)]);
          (posted, sent) = httpsPost world url headers json timeout proxy in
      (case posted of
         Inl e \<Rightarrow> Inl e
       | Inr (response, data) \<Rightarrow>
           if statusCode response = None \<or> statusCode response = Some 0 \<or>
              the (statusCode response) < 200 \<or> the (statusCode response) > 299
           then
             Inl (KnownError
               (''API Error: '' @ template_nat (statusCode response) @ '' - '' @
                  template_string (statusMessage response)
                @ (if data \<noteq> [] then [CHR 0x0A, CHR 0x0A] @ data else [])
                @ (if statusCode response = Some 500
                   then [CHR 0x0A, CHR 0x0A] @ ''Check the API status: https://status.openai.com''
                   else [])))
           else
             (case JSON_parse world data of
                Inl m \<Rightarrow> Inl (SyntaxError m)
              | Inr completion \<Rightarrow> Inr completion),
       sent))"

text \<open>\<^verbatim>\<open>String.prototype.trim\<close>\<close>

definition trim :: "string \<Rightarrow> string" where
  "trim s = rev (dropWhile isWhiteSpace (rev (dropWhile isWhiteSpace s)))"

text \<open>\<^verbatim>\<open>.replace(/[\n\r]/g, '')\<close>\<close>

definition replace_line_breaks :: "string \<Rightarrow> string" where
  "replace_line_breaks s = filter (\<lambda>c. c \<noteq> CHR 0x0A \<and> c \<noteq> CHR 0x0D) s"

text \<open>
  \<^verbatim>\<open>.replace(/(\w)\.$/, '$1')\<close>: the pattern matches at the end of the string only, a
  word character followed by the period, and keeps the word character.
\<close>

definition replace_word_period :: "string \<Rightarrow> string" where
  "replace_word_period s =
     (case rev s of
        c # w # rest \<Rightarrow> if c = CHR ''.'' \<and> isWordChar w then rev (w # rest) else s
      | _ \<Rightarrow> s)"

definition sanitizeMessage :: "string \<Rightarrow> string" where
  "sanitizeMessage message = replace_word_period (replace_line_breaks (trim message))"

text \<open>
  \<^verbatim>\<open>Array.from(new Set(array))\<close>: a set keeps its elements in insertion order, and adding
  an element it has changes nothing.
\<close>

definition Set_add :: "string list \<Rightarrow> string \<Rightarrow> string list" where
  "Set_add s x = (if x \<in> set s then s else s @ [x])"

definition deduplicateMessages :: "string list \<Rightarrow> string list" where
  "deduplicateMessages array = foldl Set_add [] array"

text \<open>\<^verbatim>\<open>choice.message?.content\<close> as a condition, and \<^verbatim>\<open>choice.message!.content\<close>.\<close>

definition has_content :: "choice \<Rightarrow> bool" where
  "has_content c =
     (case choice_message c of
        None \<Rightarrow> False
      | Some m \<Rightarrow> (case response_content m of None \<Rightarrow> False | Some text \<Rightarrow> text \<noteq> []))"

definition content_of :: "choice \<Rightarrow> string" where
  "content_of c = the (response_content (the (choice_message c)))"

text \<open>The property \<^verbatim>\<open>code\<close> of a caught error; only the request's errors have one.\<close>

definition error_code :: "error \<Rightarrow> string option" where
  "error_code e = (case e of RequestError err \<Rightarrow> code err | _ \<Rightarrow> None)"

definition msg_ENOTFOUND :: "error \<Rightarrow> string" where
  "msg_ENOTFOUND e =
     (case e of
        RequestError err \<Rightarrow>
          ''Error connecting to '' @ template_string (hostname err) @ '' ('' @
          template_string (syscall err) @ ''). Are you connected to the internet?''
      | _ \<Rightarrow> ''Error connecting to undefined (undefined). Are you connected to the internet?'')"

definition generateCommitMessage ::
  "env \<Rightarrow> ValidConfig \<Rightarrow> string \<Rightarrow> (error + string list) \<times> https_call list" where
  "generateCommitMessage world config diff =
     (let apiKey = OPENAI_KEY config;
          useAzure = USE_AZURE config;
          azureKey = AZURE_OPENAI_KEY config;
          url = (if useAzure then AZURE_OPENAI_ENDPOINT config
                 else ''https://api.openai.com/v1/chat/completions'');
          (completion, sent) =
            createChatCompletion world useAzure url (if useAzure then azureKey else apiKey)
              \<lparr>req_model = cfg_model config,
               req_messages =
                 [Message ''system''
                    (generatePrompt world (cfg_locale config) (cfg_max_length config)
                       (cfg_type config)),
                  Message ''user'' diff],
               req_temperature = 7 / 10,
               req_top_p = 1,
               req_frequency_penalty = 0,
               req_presence_penalty = 0,
               req_max_tokens = 200,
               req_stream = False,
               req_n = cfg_generate config\<rparr>
              (cfg_timeout config) (cfg_proxy config) in
      (case completion of
         Inr c \<Rightarrow>
           Inr (deduplicateMessages
                  (map (\<lambda>choice. sanitizeMessage (content_of choice))
                     (filter has_content (choices c))))
       | Inl e \<Rightarrow>
           if error_code e = Some ''ENOTFOUND'' then Inl (KnownError (msg_ENOTFOUND e))
           else Inl e,
       sent))"

section \<open>Notions used to state the properties\<close>

text \<open>
  Two readings of the loop of \<^verbatim>\<open>getConfig\<close>, used to state what it returns: the error of
  the first parser that fails on its resolved value, and the pairs of key and parsed value
  of the parsers that succeed, in the order of the table.
\<close>

fun first_error :: "(string \<Rightarrow> string option) \<Rightarrow> (string \<times> parser) list \<Rightarrow> error option" where
  "first_error val [] = None"
| "first_error val ((key, parser) # rest) =
     (case parser (val key) of Inl e \<Rightarrow> Some e | Inr v \<Rightarrow> first_error val rest)"

fun parsed_values :: "(string \<Rightarrow> string option) \<Rightarrow> (string \<times> parser) list \<Rightarrow> (string \<times> jsval) list" where
  "parsed_values val [] = []"
| "parsed_values val ((key, parser) # rest) =
     (case parser (val key) of Inl e \<Rightarrow> parsed_values val rest
      | Inr v \<Rightarrow> (key, v) # parsed_values val rest)"

text \<open>
  The cross-field rule on credentials, on the validated values: in gateway mode the
  gateway key and the gateway endpoint are not the empty string; otherwise the direct
  key is not the empty string. The three errors that \<^verbatim>\<open>getConfig\<close> raises for it are
  \<open>credential_errors\<close>; a parser's error starts with \<^verbatim>\<open>Invalid config property\<close>.
\<close>

definition all_parsers_succeed :: "(string \<Rightarrow> string option) \<Rightarrow> bool" where
  "all_parsers_succeed val = list_all (\<lambda>(key, parser). \<not> isl (parser (val key))) combinedParsers"

definition credential_invariant :: "(string \<times> jsval) list \<Rightarrow> bool" where
  "credential_invariant validated =
     (if map_of validated ''USE_AZURE'' = Some (Bool True)
      then map_of validated ''AZURE_OPENAI_KEY'' \<noteq> Some (Str '''') \<and>
           map_of validated ''AZURE_OPENAI_ENDPOINT'' \<noteq> Some (Str '''')
      else map_of validated ''OPENAI_KEY'' \<noteq> Some (Str ''''))"

definition credential_errors :: "error list" where
  "credential_errors =
     [KnownError msg_set_OPENAI_KEY, KnownError msg_set_AZURE_OPENAI_KEY,
      KnownError msg_set_AZURE_OPENAI_ENDPOINT]"

definition is_parser_error :: "error \<Rightarrow> bool" where
  "is_parser_error e = (case e of KnownError m \<Rightarrow> startsWith m ''Invalid config property '' | _ \<Rightarrow> False)"

text \<open>
  A pair of \<^verbatim>\<open>setConfigs\<close> is invalid when its key is not a key of the table or when the
  key's parser throws on its value.
\<close>

definition invalid_pair :: "string \<times> string \<Rightarrow> bool" where
  "invalid_pair kv =
     (case map_of combinedParsers (fst kv) of
        None \<Rightarrow> True
      | Some parser \<Rightarrow> isl (parser (Some (snd kv))))"

text \<open>The default of every key, in the order of the table.\<close>

definition defaultConfig :: "(string \<times> jsval) list" where
  "defaultConfig =
     [(''USE_AZURE'', Bool False),
      (''AZURE_OPENAI_KEY'', Str ''''),
      (''AZURE_OPENAI_ENDPOINT'', Str ''''),
      (''OPENAI_KEY'', Str ''''),
      (''locale'', Str ''en''),
      (''generate'', Num 1),
      (''type'', Str ''''),
      (''proxy'', Undefined),
      (''model'', Str ''gpt-3.5-turbo''),
      (''timeout'', Num 10000),
      (''max-length'', Num 50)]"

text \<open>
  Sanitizing in the words of the specification: after trimming and removing the line
  breaks, a period at the end is removed, whatever precedes it.
\<close>

definition strip_trailing_period :: "string \<Rightarrow> string" where
  "strip_trailing_period s = (if s \<noteq> [] \<and> last s = CHR ''.'' then butlast s else s)"

definition sanitizeMessage_spec :: "string \<Rightarrow> string" where
  "sanitizeMessage_spec message = strip_trailing_period (replace_line_breaks (trim message))"

text \<open>
  The elements of a list at the positions where they occur for the first time.
\<close>

definition first_occurrences :: "string list \<Rightarrow> string list" where
  "first_occurrences xs =
     map (\<lambda>i. xs ! i) (filter (\<lambda>i. xs ! i \<notin> set (take i xs)) [0..<length xs])"

text \<open>
  Characters and decimal notation, written out independently of the tests of the code:
  the ten digits, the white space that \<^verbatim>\<open>trim\<close> removes, the characters of \<^verbatim>\<open>\w\<close>; the
  value of a digit is its position among the digits, the value of a string of digits is
  its Horner sum to the base ten, and the decimal digits of a number are the string of
  digits with that value and no leading zero.
\<close>

definition digit_chars :: string where
  "digit_chars = ''0123456789''"

definition whitespace_chars :: string where
  "whitespace_chars = [CHR 0x09, CHR 0x0A, CHR 0x0B, CHR 0x0C, CHR 0x0D, CHR 0x20, CHR 0xA0]"

definition word_chars :: string where
  "word_chars = ''abcdefghijklmnopqrstuvwxyzABCDEFGHIJKLMNOPQRSTUVWXYZ0123456789_''"

definition digit_of :: "char \<Rightarrow> nat" where
  "digit_of c = length (takeWhile (\<lambda>d. d \<noteq> c) digit_chars)"

definition decimal_value :: "string \<Rightarrow> nat" where
  "decimal_value ds = horner_sum digit_of 10 (rev ds)"

definition decimal_digits :: "string \<Rightarrow> nat \<Rightarrow> bool" where
  "decimal_digits ds n =
     (ds \<noteq> [] \<and> set ds \<subseteq> set digit_chars \<and> (length ds = 1 \<or> hd ds \<noteq> CHR ''0'') \<and>
      decimal_value ds = n)"

text \<open>
  Sanitizing, step by step on the characters: the white space at both ends is dropped,
  every line feed and carriage return is left out, and a period at the end is removed
  when the character before it is a word character.
\<close>

fun drop_whitespace :: "string \<Rightarrow> string" where
  "drop_whitespace [] = []"
| "drop_whitespace (c # s) = (if c \<in> set whitespace_chars then drop_whitespace s else c # s)"

definition trimmed :: "string \<Rightarrow> string" where
  "trimmed s = rev (drop_whitespace (rev (drop_whitespace s)))"

fun without_line_breaks :: "string \<Rightarrow> string" where
  "without_line_breaks [] = []"
| "without_line_breaks (c # s) =
     (if c = CHR 0x0A \<or> c = CHR 0x0D then without_line_breaks s
      else c # without_line_breaks s)"

definition without_word_period :: "string \<Rightarrow> string" where
  "without_word_period s =
     (if 2 \<le> length s \<and> last s = CHR ''.'' \<and> last (butlast s) \<in> set word_chars
      then butlast s else s)"

definition sanitized :: "string \<Rightarrow> string" where
  "sanitized message = without_word_period (without_line_breaks (trimmed message))"

text \<open>The contents of the choices that have a message with a non-empty content, in order.\<close>

fun nonempty_contents :: "choice list \<Rightarrow> string list" where
  "nonempty_contents [] = []"
| "nonempty_contents (Choice (Some (ResponseMessage (Some text))) # rest) =
     (if text = [] then nonempty_contents rest else text # nonempty_contents rest)"
| "nonempty_contents (Choice other # rest) = nonempty_contents rest"

text \<open>
  Concrete collaborators for the examples: a library that reads every file as a given
  object and writes an object as lines of \<^verbatim>\<open>key=value\<close>; a world whose network gives one
  fixed answer and whose \<^verbatim>\<open>JSON.parse\<close> returns given choices; a configuration for each
  of the two modes.
\<close>

fun show_jsval :: "jsval \<Rightarrow> string" where
  "show_jsval Undefined = ''undefined''"
| "show_jsval (Str s) = s"
| "show_jsval (Num n) = String_nat n"
| "show_jsval (Bool b) = (if b then ''true'' else ''false'')"

definition ini_fixed :: "(string \<times> string) list \<Rightarrow> ini" where
  "ini_fixed config =
     \<lparr>ini_parse = (\<lambda>configString. config),
      ini_stringify = (\<lambda>obj. concat (map (\<lambda>(k, v). k @ ''='' @ show_jsval v @ [CHR 0x0A]) obj))\<rparr>"

definition env_fixed :: "outcome \<Rightarrow> choice list \<Rightarrow> env" where
  "env_fixed answer cs =
     \<lparr>generatePrompt = (\<lambda>locale maxLength type. locale),
      JSON_stringify = (\<lambda>json. req_model json),
      JSON_parse = (\<lambda>body. Inr \<lparr>choices = cs\<rparr>),
      https_request = (\<lambda>call. answer)\<rparr>"

definition config_direct :: ValidConfig where
  "config_direct =
     \<lparr>USE_AZURE = False, AZURE_OPENAI_KEY = '''', AZURE_OPENAI_ENDPOINT = '''',
      OPENAI_KEY = ''sk-abc'', cfg_locale = ''en'', cfg_generate = 2, cfg_type = '''',
      cfg_proxy = None, cfg_model = ''gpt-3.5-turbo'', cfg_timeout = 10000,
      cfg_max_length = 50\<rparr>"

definition config_gateway :: ValidConfig where
  "config_gateway =
     \<lparr>USE_AZURE = True, AZURE_OPENAI_KEY = ''azure-key'',
      AZURE_OPENAI_ENDPOINT = ''https://demo.openai.azure.com/chat'',
      OPENAI_KEY = '''', cfg_locale = ''en'', cfg_generate = 1, cfg_type = '''',
      cfg_proxy = None, cfg_model = ''gpt-3.5-turbo'', cfg_timeout = 10000,
      cfg_max_length = 50\<rparr>"

section \<open>Properties of the configuration store\<close>

text \<open>
  The keys of the table are distinct, so each assignment of the loop adds a new key at
  the end of the object.
\<close>

lemma update_fresh: "k \<notin> fst ` set al \<Longrightarrow> AList.update k v al = al @ [(k, v)]"
  by (induction al) auto

lemma getConfig_loop_suppress:
  "distinct (map fst ps) \<Longrightarrow> fst ` set pc \<inter> fst ` set ps = {} \<Longrightarrow>
   getConfig_loop True val ps pc = Inr (pc @ parsed_values val ps)"
proof (induction ps arbitrary: pc)
  case Nil
  then show ?case by simp
next
  case (Cons a ps)
  obtain k p where a: "a = (k, p)" by (cases a)
  show ?case
  proof (cases "p (val k)")
    case (Inl e)
    with Cons a show ?thesis by auto
  next
    case (Inr v)
    have fresh: "k \<notin> fst ` set pc" using Cons.prems a by auto
    have disj: "fst ` set (pc @ [(k, v)]) \<inter> fst ` set ps = {}"
      using Cons.prems a by auto
    have "getConfig_loop True val ps (pc @ [(k, v)]) = Inr ((pc @ [(k, v)]) @ parsed_values val ps)"
      using Cons.IH [OF _ disj] Cons.prems by simp
    with Inr a fresh show ?thesis by (simp add: update_fresh)
  qed
qed

lemma getConfig_loop_strict:
  "distinct (map fst ps) \<Longrightarrow> fst ` set pc \<inter> fst ` set ps = {} \<Longrightarrow>
   getConfig_loop False val ps pc =
     (case first_error val ps of Some e \<Rightarrow> Inl e | None \<Rightarrow> Inr (pc @ parsed_values val ps))"
proof (induction ps arbitrary: pc)
  case Nil
  then show ?case by simp
next
  case (Cons a ps)
  obtain k p where a: "a = (k, p)" by (cases a)
  show ?case
  proof (cases "p (val k)")
    case (Inl e)
    with Cons a show ?thesis by auto
  next
    case (Inr v)
    have fresh: "k \<notin> fst ` set pc" using Cons.prems a by auto
    have disj: "fst ` set (pc @ [(k, v)]) \<inter> fst ` set ps = {}"
      using Cons.prems a by auto
    have "getConfig_loop False val ps (pc @ [(k, v)]) =
        (case first_error val ps of Some e \<Rightarrow> Inl e
         | None \<Rightarrow> Inr ((pc @ [(k, v)]) @ parsed_values val ps))"
      using Cons.IH [OF _ disj] Cons.prems by simp
    with Inr a fresh show ?thesis by (simp add: update_fresh split: option.splits)
  qed
qed

lemma distinct_combinedParsers: "distinct (map fst combinedParsers)"
  by (simp add: combinedParsers_def azureConfigParsers_def configParsers_def)

lemma parser_errors:
  "(k, p) \<in> set combinedParsers \<Longrightarrow> p x = Inl e \<Longrightarrow> is_parser_error e"
  by (auto simp: combinedParsers_def azureConfigParsers_def configParsers_def
      parse_OPENAI_KEY_def parse_locale_def parse_generate_def parse_type_def parse_proxy_def
      parse_model_def parse_timeout_def parse_max_length_def parse_USE_AZURE_def
      parse_AZURE_OPENAI_KEY_def parse_AZURE_OPENAI_ENDPOINT_def parseAssert_def
      is_parser_error_def startsWith_def Let_def split: if_splits)

lemma first_error_parser:
  "first_error val ps = Some e \<Longrightarrow> \<exists>k p. (k, p) \<in> set ps \<and> p (val k) = Inl e"
  by (induction ps) (fastforce split: sum.splits)+

lemma first_error_None: "first_error val ps = None \<longleftrightarrow> list_all (\<lambda>(key, parser). \<not> isl (parser (val key))) ps"
  by (induction ps) (auto split: sum.splits)

lemma credential_not_parser_error: "e \<in> set credential_errors \<Longrightarrow> \<not> is_parser_error e"
  by (auto simp: credential_errors_def is_parser_error_def startsWith_def
      msg_set_OPENAI_KEY_def msg_set_AZURE_OPENAI_KEY_def msg_set_AZURE_OPENAI_ENDPOINT_def)

lemma parsed_values_absent:
  "k \<notin> fst ` set ps \<Longrightarrow> map_of (parsed_values val ps) k = None"
  by (induction ps) (auto split: sum.splits)

lemma parsed_values_lookup:
  "distinct (map fst ps) \<Longrightarrow> map_of ps k = Some p \<Longrightarrow>
   map_of (parsed_values val ps) k = (case p (val k) of Inl e \<Rightarrow> None | Inr v \<Rightarrow> Some v)"
proof (induction ps)
  case Nil
  then show ?case by simp
next
  case (Cons a ps)
  obtain k' p' where a: "a = (k', p')" by (cases a)
  have notin: "k' \<notin> fst ` set ps" using Cons.prems a by auto
  show ?case
  proof (cases "k = k'")
    case True
    with Cons.prems a parsed_values_absent [OF notin, of val] show ?thesis
      by (auto split: sum.splits)
  next
    case False
    with Cons a show ?thesis by (auto split: sum.splits)
  qed
qed

lemma USE_AZURE_Bool: "parse_USE_AZURE x = Inr v \<Longrightarrow> \<exists>b. v = Bool b"
  by (auto simp: parse_USE_AZURE_def parseAssert_def Let_def split: if_splits)

lemma checks_strict:
  "(\<exists>b. map_of pc ''USE_AZURE'' = Some (Bool b)) \<Longrightarrow>
   getConfig_checks False pc =
     (if credential_invariant pc then Inr pc
      else Inl (if map_of pc ''USE_AZURE'' \<noteq> Some (Bool True) then KnownError msg_set_OPENAI_KEY
                else if map_of pc ''AZURE_OPENAI_KEY'' = Some (Str '''') then KnownError msg_set_AZURE_OPENAI_KEY
                else KnownError msg_set_AZURE_OPENAI_ENDPOINT))"
  by (auto simp: getConfig_checks_def credential_invariant_def getProp_def Let_def split: option.splits)

lemmas parser_defs =
  parse_OPENAI_KEY_def parse_locale_def parse_generate_def parse_type_def parse_proxy_def
  parse_model_def parse_timeout_def parse_max_length_def parse_USE_AZURE_def
  parse_AZURE_OPENAI_KEY_def parse_AZURE_OPENAI_ENDPOINT_def

lemmas table_defs = combinedParsers_def azureConfigParsers_def configParsers_def

lemma getConfig_checks_suppress: "getConfig_checks True pc = Inr pc"
  by (simp add: getConfig_checks_def Let_def)

lemma getConfig_suppress_eq:
  "getConfig lib file cliConfig True =
     Inr (parsed_values (resolve cliConfig (readConfigFile lib file)) combinedParsers)"
  using getConfig_loop_suppress [OF distinct_combinedParsers, of "[]"]
  by (simp add: getConfig_def getConfig_checks_suppress)

lemma parsed_values_undefined: "parsed_values (\<lambda>k. None) combinedParsers = defaultConfig"
  by (simp add: table_defs parser_defs falsy_def defaultConfig_def)

lemma resolve_nothing: "resolve None (readConfigFile lib None) = (\<lambda>k. None)"
  by (simp add: resolve_def readConfigFile_def fun_eq_iff)

lemma setConfigs_loop_invalid:
  "list_ex invalid_pair keyValues \<Longrightarrow> isl (setConfigs_loop keyValues config)"
proof (induction keyValues arbitrary: config)
  case Nil
  then show ?case by simp
next
  case (Cons kv keyValues)
  obtain k v where kv: "kv = (k, v)" by (cases kv)
  show ?case
  proof (cases "invalid_pair kv")
    case True
    with kv show ?thesis
      by (auto simp: invalid_pair_def split: option.splits sum.splits)
  next
    case False
    with Cons.prems have "list_ex invalid_pair keyValues" by simp
    from Cons.IH [OF this] kv show ?thesis
      by (auto split: option.splits sum.splits)
  qed
qed

lemma setConfigs_loop_valid:
  "\<not> list_ex invalid_pair keyValues \<Longrightarrow> \<not> isl (setConfigs_loop keyValues config)"
proof (induction keyValues arbitrary: config)
  case Nil
  then show ?case by simp
next
  case (Cons kv keyValues)
  obtain k v where kv: "kv = (k, v)" by (cases kv)
  from Cons.prems kv have valid: "\<not> invalid_pair (k, v)" by simp
  then obtain parser where p: "map_of combinedParsers k = Some parser"
    by (cases "map_of combinedParsers k") (auto simp: invalid_pair_def)
  with valid obtain parsed where r: "parser (Some v) = Inr parsed"
    by (cases "parser (Some v)") (auto simp: invalid_pair_def)
  from Cons.prems have "\<not> list_ex invalid_pair keyValues" by simp
  with p r show ?case using Cons.IH kv by simp
qed




text \<open>\<open>Number_digits\<close> reads decimal notation: a further digit multiplies by ten.\<close>

lemma Number_digits_snoc: "Number_digits (s @ [c]) = 10 * Number_digits s + digitValue c"
  by (simp add: Number_digits_def)

text \<open>
  The character tests of the code are these sets of characters (checked on all 256
  characters), and \<^verbatim>\<open>Number\<close> and the template literal agree with decimal notation.
\<close>

lemma isDigit_chars: "\<forall>c. isDigit c = (c \<in> set digit_chars)"
  by code_simp

lemma digit_of_digitValue: "\<forall>c. isDigit c \<longrightarrow> digit_of c = digitValue c"
  by code_simp

lemma digitChar_facts:
  assumes "d < 10"
  shows "digit_of (digitChar d) = d" and "digitChar d \<in> set digit_chars"
    and "1 \<le> d \<Longrightarrow> digitChar d \<noteq> CHR ''0''"
proof -
  from assms have "d = 0 \<or> d = 1 \<or> d = 2 \<or> d = 3 \<or> d = 4 \<or> d = 5 \<or> d = 6 \<or> d = 7 \<or> d = 8 \<or> d = 9"
    by arith
  then show "digit_of (digitChar d) = d" and "digitChar d \<in> set digit_chars"
    and "1 \<le> d \<Longrightarrow> digitChar d \<noteq> CHR ''0''"
    by (auto simp: digitChar_def digit_of_def digit_chars_def)
qed

lemma test_digits_chars: "test_digits s \<longleftrightarrow> s \<noteq> [] \<and> set s \<subseteq> set digit_chars"
  by (auto simp: test_digits_def list_all_iff isDigit_chars)

lemma Number_digits_decimal_value:
  "set s \<subseteq> set digit_chars \<Longrightarrow> Number_digits s = decimal_value s"
proof (induction s rule: rev_induct)
  case Nil
  then show ?case by (simp add: Number_digits_def decimal_value_def)
next
  case (snoc c s)
  then have "isDigit c" using isDigit_chars by simp
  then have "digit_of c = digitValue c" using digit_of_digitValue by blast
  moreover have "Number_digits s = decimal_value s" using snoc by simp
  ultimately show ?case by (simp add: Number_digits_def decimal_value_def)
qed




text \<open>
  Claim C1. Without \<open>suppressErrors\<close>, \<^verbatim>\<open>getConfig\<close> fails with one of the three
  instructional errors exactly when every parser succeeds on its resolved value and the
  validated values break the rule on credentials (gateway mode off and the direct key
  empty, or gateway mode on and the gateway key or the gateway endpoint empty); when
  every parser succeeds and the rule holds, it returns the validated mapping.
\<close>

theorem getConfig_credential_invariant:
  "((\<exists>e \<in> set credential_errors. getConfig lib file cliConfig False = Inl e) \<longleftrightarrow>
      (all_parsers_succeed (resolve cliConfig (readConfigFile lib file)) \<and>
       \<not> credential_invariant
           (parsed_values (resolve cliConfig (readConfigFile lib file)) combinedParsers)))
   \<and> (all_parsers_succeed (resolve cliConfig (readConfigFile lib file)) \<and>
      credential_invariant
        (parsed_values (resolve cliConfig (readConfigFile lib file)) combinedParsers) \<longrightarrow>
      getConfig lib file cliConfig False =
        Inr (parsed_values (resolve cliConfig (readConfigFile lib file)) combinedParsers))"
proof -
  define val where "val = resolve cliConfig (readConfigFile lib file)"
  have "((\<exists>e \<in> set credential_errors. getConfig lib file cliConfig False = Inl e) \<longleftrightarrow>
      (all_parsers_succeed val \<and> \<not> credential_invariant (parsed_values val combinedParsers)))
   \<and> (all_parsers_succeed val \<and> credential_invariant (parsed_values val combinedParsers) \<longrightarrow>
      getConfig lib file cliConfig False = Inr (parsed_values val combinedParsers))"
proof (cases "first_error val combinedParsers")
  case None
  then have ok: "all_parsers_succeed val"
    by (simp add: first_error_None all_parsers_succeed_def)
  have loop: "getConfig_loop False val combinedParsers [] = Inr (parsed_values val combinedParsers)"
    using getConfig_loop_strict [OF distinct_combinedParsers, of "[]" val] None by simp
  have "map_of combinedParsers ''USE_AZURE'' = Some parse_USE_AZURE"
    by (simp add: combinedParsers_def azureConfigParsers_def)
  from parsed_values_lookup [OF distinct_combinedParsers this, of val]
  have look: "map_of (parsed_values val combinedParsers) ''USE_AZURE'' =
      (case parse_USE_AZURE (val ''USE_AZURE'') of Inl e \<Rightarrow> None | Inr v \<Rightarrow> Some v)" .
  have "\<not> isl (parse_USE_AZURE (val ''USE_AZURE''))"
    using ok by (simp add: all_parsers_succeed_def combinedParsers_def azureConfigParsers_def)
  then obtain v where "parse_USE_AZURE (val ''USE_AZURE'') = Inr v"
    by (cases "parse_USE_AZURE (val ''USE_AZURE'')") auto
  with look USE_AZURE_Bool
  have "\<exists>b. map_of (parsed_values val combinedParsers) ''USE_AZURE'' = Some (Bool b)"
    by fastforce
  from checks_strict [OF this]
  have "getConfig lib file cliConfig False =
     (if credential_invariant (parsed_values val combinedParsers)
      then Inr (parsed_values val combinedParsers)
      else Inl (if map_of (parsed_values val combinedParsers) ''USE_AZURE'' \<noteq> Some (Bool True)
                then KnownError msg_set_OPENAI_KEY
                else if map_of (parsed_values val combinedParsers) ''AZURE_OPENAI_KEY'' = Some (Str '''')
                then KnownError msg_set_AZURE_OPENAI_KEY
                else KnownError msg_set_AZURE_OPENAI_ENDPOINT))"
    using loop by (simp add: getConfig_def val_def)
  with ok show ?thesis by (auto simp: credential_errors_def)
next
  case (Some e)
  then have ko: "\<not> all_parsers_succeed val"
    using first_error_None [of val combinedParsers] by (simp add: all_parsers_succeed_def)
  have "getConfig lib file cliConfig False = Inl e"
    using getConfig_loop_strict [OF distinct_combinedParsers, of "[]" val] Some
    by (simp add: getConfig_def val_def)
  moreover have "is_parser_error e"
    using first_error_parser [OF Some] parser_errors by blast
  ultimately show ?thesis using ko credential_not_parser_error by auto
qed
  then show ?thesis by (simp add: val_def)
qed

text \<open>
  An instance: with only a well-formed direct key in the file, every parser succeeds, the
  rule holds and the whole mapping is returned.
\<close>

theorem getConfig_credential_invariant_witness:
  "all_parsers_succeed
     (resolve None (readConfigFile (ini_fixed [(''OPENAI_KEY'', ''sk-abc'')]) (Some ''x''))) \<and>
   credential_invariant
     (parsed_values
        (resolve None (readConfigFile (ini_fixed [(''OPENAI_KEY'', ''sk-abc'')]) (Some ''x'')))
        combinedParsers) \<and>
   getConfig (ini_fixed [(''OPENAI_KEY'', ''sk-abc'')]) (Some ''x'') None False =
     Inr [(''USE_AZURE'', Bool False), (''AZURE_OPENAI_KEY'', Str ''''),
          (''AZURE_OPENAI_ENDPOINT'', Str ''''), (''OPENAI_KEY'', Str ''sk-abc''),
          (''locale'', Str ''en''), (''generate'', Num 1), (''type'', Str ''''),
          (''proxy'', Undefined), (''model'', Str ''gpt-3.5-turbo''),
          (''timeout'', Num 10000), (''max-length'', Num 50)]"
  using getConfig_credential_invariant [of "ini_fixed [(''OPENAI_KEY'', ''sk-abc'')]" "Some ''x''" None]
  by (simp add: all_parsers_succeed_def credential_invariant_def ini_fixed_def readConfigFile_def
      resolve_def table_defs parser_defs falsy_def parseAssert_def startsWith_def)

text \<open>
  Claim C2 as stated fails: with no file and no overrides, \<^verbatim>\<open>getConfig\<close> without
  \<open>suppressErrors\<close> does not return; the direct key defaults to the empty string with
  gateway mode off, and the check on credentials raises its error.
\<close>

theorem getConfig_no_file_counterexample:
  "getConfig (ini_fixed []) None None False = Inl (KnownError msg_set_OPENAI_KEY)"
  by (simp add: getConfig_def resolve_nothing table_defs parser_defs falsy_def
      getConfig_checks_def getProp_def)

text \<open>
  Claim C2, amended. With no file and no overrides, \<^verbatim>\<open>getConfig\<close> with \<open>suppressErrors\<close>
  returns every key with its default (gateway flag false, gateway key and endpoint empty,
  direct key empty, locale \<^verbatim>\<open>en\<close>, generate 1, type empty, proxy undefined, model
  \<^verbatim>\<open>gpt-3.5-turbo\<close>, timeout 10000, max-length 50); without \<open>suppressErrors\<close> it fails
  with the error that asks for the direct key.
\<close>

theorem getConfig_no_file_defaults:
  "getConfig lib None None True = Inr defaultConfig \<and>
   getConfig lib None None False = Inl (KnownError msg_set_OPENAI_KEY)"
proof
  show "getConfig lib None None True = Inr defaultConfig"
    by (simp add: getConfig_suppress_eq resolve_nothing parsed_values_undefined)
  have "first_error (\<lambda>k. None) combinedParsers = None"
    by (simp add: table_defs parser_defs falsy_def)
  then have "getConfig_loop False (\<lambda>k. None) combinedParsers [] = Inr defaultConfig"
    using getConfig_loop_strict [OF distinct_combinedParsers, of "[]" "\<lambda>k. None"]
    by (simp add: parsed_values_undefined)
  then show "getConfig lib None None False = Inl (KnownError msg_set_OPENAI_KEY)"
    by (simp add: getConfig_def resolve_nothing getConfig_checks_def getProp_def defaultConfig_def)
qed

text \<open>An instance, with the defaults written out.\<close>

theorem getConfig_no_file_defaults_witness:
  "getConfig (ini_fixed []) None None True =
     Inr [(''USE_AZURE'', Bool False), (''AZURE_OPENAI_KEY'', Str ''''),
          (''AZURE_OPENAI_ENDPOINT'', Str ''''), (''OPENAI_KEY'', Str ''''),
          (''locale'', Str ''en''), (''generate'', Num 1), (''type'', Str ''''),
          (''proxy'', Undefined), (''model'', Str ''gpt-3.5-turbo''),
          (''timeout'', Num 10000), (''max-length'', Num 50)]"
  using getConfig_no_file_defaults [of "ini_fixed []"]
  by (simp add: defaultConfig_def)

text \<open>
  Claim C3. When some pair of the batch has an unknown key or a value that its key's parser
  rejects, \<^verbatim>\<open>setConfigs\<close> fails and the file is what it was: nothing of the batch is
  written. (When every pair is valid, the file is written with the whole object.)
\<close>

theorem setConfigs_all_or_nothing:
  "(list_ex invalid_pair keyValues \<longrightarrow>
      isl (fst (setConfigs lib file keyValues)) \<and> snd (setConfigs lib file keyValues) = file) \<and>
   (\<not> list_ex invalid_pair keyValues \<longrightarrow>
      fst (setConfigs lib file keyValues) = Inr () \<and>
      (\<exists>config. snd (setConfigs lib file keyValues) = Some (ini_stringify lib config)))"
proof (cases "list_ex invalid_pair keyValues")
  case True
  from setConfigs_loop_invalid [OF True, of "map (\<lambda>(k, v). (k, Str v)) (readConfigFile lib file)"] obtain e where
    "setConfigs_loop keyValues (map (\<lambda>(k, v). (k, Str v)) (readConfigFile lib file)) = Inl e"
    by (cases "setConfigs_loop keyValues (map (\<lambda>(k, v). (k, Str v)) (readConfigFile lib file))")
       auto
  with True show ?thesis by (simp add: setConfigs_def)
next
  case False
  from setConfigs_loop_valid [OF False, of "map (\<lambda>(k, v). (k, Str v)) (readConfigFile lib file)"] obtain c where
    "setConfigs_loop keyValues (map (\<lambda>(k, v). (k, Str v)) (readConfigFile lib file)) = Inr c"
    by (cases "setConfigs_loop keyValues (map (\<lambda>(k, v). (k, Str v)) (readConfigFile lib file))")
       auto
  with False show ?thesis by (auto simp: setConfigs_def)
qed

text \<open>
  An instance: the first pair is valid, the second is not; the error is the second
  pair's and the file keeps its text.
\<close>

theorem setConfigs_all_or_nothing_witness:
  "list_ex invalid_pair [(''generate'', ''3''), (''OPENAI_KEY'', ''abc'')] \<and>
   isl (fst (setConfigs (ini_fixed [(''timeout'', ''600'')]) (Some ''timeout=600'')
     [(''generate'', ''3''), (''OPENAI_KEY'', ''abc'')])) \<and>
   snd (setConfigs (ini_fixed [(''timeout'', ''600'')]) (Some ''timeout=600'')
     [(''generate'', ''3''), (''OPENAI_KEY'', ''abc'')]) = Some ''timeout=600''"
proof -
  have inv: "list_ex invalid_pair [(''generate'', ''3''), (''OPENAI_KEY'', ''abc'')]"
    by (simp add: invalid_pair_def table_defs parse_OPENAI_KEY_def parse_generate_def falsy_def
        parseAssert_def startsWith_def test_digits_def isDigit_def Number_digits_def digitValue_def)
  with setConfigs_all_or_nothing [of "[(''generate'', ''3''), (''OPENAI_KEY'', ''abc'')]"
      "ini_fixed [(''timeout'', ''600'')]" "Some ''timeout=600''"]
  show ?thesis by blast
qed

text \<open>
  Claim C8. The parser of \<^verbatim>\<open>generate\<close> returns 1 when the value is undefined or empty;
  for a non-empty string of the digits 0 to 9 whose decimal value is from 1 to 5 it
  returns that value; for every other non-empty string it fails with an error that names
  the key.
\<close>

theorem parse_generate_cases:
  "parse_generate None = Inr (Num 1) \<and>
   parse_generate (Some '''') = Inr (Num 1) \<and>
   (count \<noteq> '''' \<longrightarrow>
      (if set count \<subseteq> set digit_chars \<and> 1 \<le> decimal_value count \<and> decimal_value count \<le> 5
       then parse_generate (Some count) = Inr (Num (decimal_value count))
       else \<exists>message. parse_generate (Some count) =
              Inl (KnownError (''Invalid config property generate: '' @ message))))"
proof (cases "set count \<subseteq> set digit_chars")
  case True
  then show ?thesis
    by (simp add: parse_generate_def falsy_def parseAssert_def Let_def test_digits_chars
        Number_digits_decimal_value)
next
  case False
  then show ?thesis
    by (simp add: parse_generate_def falsy_def parseAssert_def Let_def test_digits_chars)
qed

text \<open>
  Instances: a value in range with a leading zero, five, and the failures zero, six,
  fifteen and a string that is not digits only.
\<close>

theorem parse_generate_cases_witness:
  "parse_generate (Some ''04'') = Inr (Num 4) \<and>
   parse_generate (Some ''5'') = Inr (Num 5) \<and>
   (\<exists>message. parse_generate (Some ''0'') =
      Inl (KnownError (''Invalid config property generate: '' @ message))) \<and>
   (\<exists>message. parse_generate (Some ''6'') =
      Inl (KnownError (''Invalid config property generate: '' @ message))) \<and>
   (\<exists>message. parse_generate (Some ''15'') =
      Inl (KnownError (''Invalid config property generate: '' @ message))) \<and>
   (\<exists>message. parse_generate (Some ''2x'') =
      Inl (KnownError (''Invalid config property generate: '' @ message)))"
  using parse_generate_cases [of "''04''"] parse_generate_cases [of "''5''"]
    parse_generate_cases [of "''0''"] parse_generate_cases [of "''6''"]
    parse_generate_cases [of "''15''"] parse_generate_cases [of "''2x''"]
  by (simp add: decimal_value_def digit_of_def digit_chars_def)

text \<open>
  Claim C9. With \<open>suppressErrors\<close>, \<^verbatim>\<open>getConfig\<close> returns for every file and every
  overrides: the result holds each key whose parser succeeds with its parsed value, no
  entry for a key whose parser fails, and the checks on credentials raise nothing.
\<close>

theorem getConfig_suppressed:
  "getConfig lib file cliConfig True =
     Inr (parsed_values (resolve cliConfig (readConfigFile lib file)) combinedParsers) \<and>
   (\<forall>key parser. map_of combinedParsers key = Some parser \<longrightarrow>
      map_of (parsed_values (resolve cliConfig (readConfigFile lib file)) combinedParsers) key =
        (case parser (resolve cliConfig (readConfigFile lib file) key) of
           Inl e \<Rightarrow> None | Inr v \<Rightarrow> Some v))"
  using parsed_values_lookup [OF distinct_combinedParsers]
  by (simp add: getConfig_suppress_eq)

text \<open>
  An instance with malformed values: the keys \<^verbatim>\<open>OPENAI_KEY\<close>, \<^verbatim>\<open>timeout\<close> and
  \<^verbatim>\<open>generate\<close> are left out, and gateway mode without its key and endpoint is returned
  as it is.
\<close>

theorem getConfig_suppressed_witness:
  "getConfig (ini_fixed [(''OPENAI_KEY'', ''abc''), (''timeout'', ''soon''), (''USE_AZURE'', ''true'')])
     (Some ''x'') (Some [(''generate'', ''9'')]) True =
   Inr [(''USE_AZURE'', Bool True), (''AZURE_OPENAI_KEY'', Str ''''),
        (''AZURE_OPENAI_ENDPOINT'', Str ''''), (''locale'', Str ''en''), (''type'', Str ''''),
        (''proxy'', Undefined), (''model'', Str ''gpt-3.5-turbo''), (''max-length'', Num 50)]"
  using getConfig_suppressed [of "ini_fixed [(''OPENAI_KEY'', ''abc''), (''timeout'', ''soon''), (''USE_AZURE'', ''true'')]"
     "Some ''x''" "Some [(''generate'', ''9'')]"]
  by (simp add: ini_fixed_def readConfigFile_def resolve_def table_defs parser_defs falsy_def
      parseAssert_def startsWith_def test_digits_def isDigit_def Number_digits_def digitValue_def
      toLowerCase_def toLowerChar_def)




section \<open>Properties of the completion client\<close>

text \<open>
  What \<open>trim\<close> removes is white space before and after the result, and the result
  neither starts nor ends with white space.
\<close>

lemma trim_decompose:
  "\<exists>a b. s = a @ trim s @ b \<and> list_all isWhiteSpace a \<and> list_all isWhiteSpace b"
proof -
  define d where "d = dropWhile isWhiteSpace s"
  have s: "s = takeWhile isWhiteSpace s @ d"
    by (simp add: d_def)
  have "d = rev (dropWhile isWhiteSpace (rev d)) @ rev (takeWhile isWhiteSpace (rev d))"
    by (metis rev_append rev_rev_ident takeWhile_dropWhile_id)
  then have d: "d = trim s @ rev (takeWhile isWhiteSpace (rev d))"
    by (simp add: trim_def d_def)
  have "list_all isWhiteSpace (takeWhile isWhiteSpace s)"
    by (simp add: list_all_iff) (meson set_takeWhileD)
  moreover have "list_all isWhiteSpace (rev (takeWhile isWhiteSpace (rev d)))"
    by (simp add: list_all_iff) (meson set_takeWhileD)
  moreover have "s = takeWhile isWhiteSpace s @ trim s @ rev (takeWhile isWhiteSpace (rev d))"
    using s d by simp
  ultimately show ?thesis by blast
qed

lemma trim_ends:
  "trim s \<noteq> [] \<Longrightarrow> \<not> isWhiteSpace (hd (trim s)) \<and> \<not> isWhiteSpace (last (trim s))"
proof -
  define d where "d = dropWhile isWhiteSpace s"
  define e where "e = dropWhile isWhiteSpace (rev d)"
  assume "trim s \<noteq> []"
  then have e: "e \<noteq> []" by (simp add: trim_def d_def e_def)
  then have "\<not> isWhiteSpace (hd e)" unfolding e_def by (rule hd_dropWhile)
  then have l: "\<not> isWhiteSpace (last (trim s))"
    using e by (simp add: trim_def d_def e_def last_rev)
  have "rev d = takeWhile isWhiteSpace (rev d) @ e" by (simp add: e_def)
  then have "last (rev d) = last e" using e by (metis last_appendR)
  moreover have "d \<noteq> []" using e by (auto simp: e_def)
  ultimately have "hd d = last e" by (simp add: last_rev)
  moreover have "\<not> isWhiteSpace (hd d)" using \<open>d \<noteq> []\<close> unfolding d_def by (rule hd_dropWhile)
  ultimately have "\<not> isWhiteSpace (hd (trim s))"
    using e by (simp add: trim_def d_def e_def hd_rev)
  with l show ?thesis by simp
qed

lemma replace_word_period_snoc2:
  "replace_word_period (u @ [w, c]) = (if c = CHR ''.'' \<and> isWordChar w then u @ [w] else u @ [w, c])"
  by (simp add: replace_word_period_def)

lemma replace_word_period_short: "length s < 2 \<Longrightarrow> replace_word_period s = s"
  by (cases s rule: rev_cases; cases "butlast s" rule: rev_cases)
     (auto simp: replace_word_period_def)

lemma two_last: "2 \<le> length s \<Longrightarrow> \<exists>u w c. s = u @ [w, c]"
proof -
  assume "2 \<le> length s"
  then obtain s' c where s: "s = s' @ [c]" by (cases s rule: rev_cases) auto
  with \<open>2 \<le> length s\<close> obtain u w where "s' = u @ [w]" by (cases s' rule: rev_cases) auto
  with s show ?thesis by auto
qed

lemma Set_add_set: "set (Set_add s x) = insert x (set s)"
  by (auto simp: Set_add_def)

lemma foldl_Set_add_set: "set (foldl Set_add acc xs) = set acc \<union> set xs"
  by (induction xs arbitrary: acc) (auto simp: Set_add_set)

lemma first_occurrences_snoc:
  "first_occurrences (xs @ [x]) = first_occurrences xs @ (if x \<in> set xs then [] else [x])"
proof -
  have "filter (\<lambda>i. (xs @ [x]) ! i \<notin> set (take i (xs @ [x]))) [0..<length xs] =
        filter (\<lambda>i. xs ! i \<notin> set (take i xs)) [0..<length xs]"
    by (rule filter_cong) (auto simp: nth_append)
  moreover have "map (\<lambda>i. (xs @ [x]) ! i) (filter (\<lambda>i. xs ! i \<notin> set (take i xs)) [0..<length xs]) =
        map (\<lambda>i. xs ! i) (filter (\<lambda>i. xs ! i \<notin> set (take i xs)) [0..<length xs])"
    by (rule map_cong) (auto simp: nth_append)
  ultimately show ?thesis by (simp add: first_occurrences_def)
qed

lemma deduplicateMessages_first_occurrences: "deduplicateMessages xs = first_occurrences xs"
proof (induction xs rule: rev_induct)
  case Nil
  then show ?case by (simp add: deduplicateMessages_def first_occurrences_def)
next
  case (snoc x xs)
  have "set (deduplicateMessages xs) = set xs"
    by (simp add: deduplicateMessages_def foldl_Set_add_set)
  with snoc show ?case
    by (simp add: deduplicateMessages_def first_occurrences_snoc Set_add_def)
qed

lemma first_occurrences_set: "set (first_occurrences xs) = set xs"
  by (simp add: deduplicateMessages_first_occurrences [symmetric] deduplicateMessages_def
      foldl_Set_add_set)

lemma foldl_Set_add_distinct: "distinct acc \<Longrightarrow> distinct (foldl Set_add acc xs)"
  by (induction xs arbitrary: acc) (auto simp: Set_add_def)

lemma first_occurrences_distinct: "distinct (first_occurrences xs)"
  by (simp add: deduplicateMessages_first_occurrences [symmetric] deduplicateMessages_def
      foldl_Set_add_distinct)

lemma createChatCompletion_sent:
  "snd (createChatCompletion world useAzure url apiKey json timeout proxy) =
     [httpsPost_call world url
        (if useAzure then [(''api-key'', apiKey)] else [(''Authorization'', ''Bearer '' @ apiKey)])
        json timeout proxy]"
  by (simp add: createChatCompletion_def httpsPost_def Let_def split: prod.splits)

lemma createChatCompletion_response:
  assumes "snd (createChatCompletion world useAzure url apiKey json timeout proxy) = [call]"
    and "https_request world call = ResponseEnd response body"
  shows "fst (createChatCompletion world useAzure url apiKey json timeout proxy) =
     (if statusCode response = None \<or> statusCode response = Some 0 \<or>
         the (statusCode response) < 200 \<or> the (statusCode response) > 299
      then Inl (KnownError
               (''API Error: '' @ template_nat (statusCode response) @ '' - '' @
                  template_string (statusMessage response)
                @ (if body \<noteq> [] then [CHR 0x0A, CHR 0x0A] @ body else [])
                @ (if statusCode response = Some 500
                   then [CHR 0x0A, CHR 0x0A] @ ''Check the API status: https://status.openai.com''
                   else [])))
      else (case JSON_parse world body of
                Inl m \<Rightarrow> Inl (SyntaxError m)
              | Inr completion \<Rightarrow> Inr completion))"
proof -
  from assms(1) have "call = httpsPost_call world url
        (if useAzure then [(''api-key'', apiKey)] else [(''Authorization'', ''Bearer '' @ apiKey)])
        json timeout proxy"
    by (simp add: createChatCompletion_sent)
  with assms(2) show ?thesis
    by (simp add: createChatCompletion_def httpsPost_def Let_def split: prod.splits)
qed

lemma generateCommitMessage_sent:
  "snd (generateCommitMessage world config diff) =
     snd (createChatCompletion world (USE_AZURE config)
       (if USE_AZURE config then AZURE_OPENAI_ENDPOINT config
        else ''https://api.openai.com/v1/chat/completions'')
       (if USE_AZURE config then AZURE_OPENAI_KEY config else OPENAI_KEY config)
       \<lparr>req_model = cfg_model config,
        req_messages =
          [Message ''system''
             (generatePrompt world (cfg_locale config) (cfg_max_length config) (cfg_type config)),
           Message ''user'' diff],
        req_temperature = 7 / 10, req_top_p = 1, req_frequency_penalty = 0,
        req_presence_penalty = 0, req_max_tokens = 200, req_stream = False,
        req_n = cfg_generate config\<rparr>
       (cfg_timeout config) (cfg_proxy config))"
  by (simp add: generateCommitMessage_def Let_def split: prod.splits)

lemma generateCommitMessage_fst:
  "fst (generateCommitMessage world config diff) =
     (case fst (createChatCompletion world (USE_AZURE config)
       (if USE_AZURE config then AZURE_OPENAI_ENDPOINT config
        else ''https://api.openai.com/v1/chat/completions'')
       (if USE_AZURE config then AZURE_OPENAI_KEY config else OPENAI_KEY config)
       \<lparr>req_model = cfg_model config,
        req_messages =
          [Message ''system''
             (generatePrompt world (cfg_locale config) (cfg_max_length config) (cfg_type config)),
           Message ''user'' diff],
        req_temperature = 7 / 10, req_top_p = 1, req_frequency_penalty = 0,
        req_presence_penalty = 0, req_max_tokens = 200, req_stream = False,
        req_n = cfg_generate config\<rparr>
       (cfg_timeout config) (cfg_proxy config)) of
        Inr c \<Rightarrow>
           Inr (deduplicateMessages
                  (map (\<lambda>choice. sanitizeMessage (content_of choice))
                     (filter has_content (choices c))))
       | Inl e \<Rightarrow>
           if error_code e = Some ''ENOTFOUND'' then Inl (KnownError (msg_ENOTFOUND e))
           else Inl e)"
  by (simp add: generateCommitMessage_def Let_def split: prod.splits)

lemma isWordChar_chars: "\<forall>c. isWordChar c = (c \<in> set word_chars)"
  by code_simp

lemma isWhiteSpace_chars: "\<forall>c. isWhiteSpace c = (c \<in> set whitespace_chars)"
  by code_simp

lemma String_nat_nonempty: "String_nat n \<noteq> []"
  by (subst String_nat.simps) simp

lemma String_nat_digits: "set (String_nat n) \<subseteq> set digit_chars"
proof (induction n rule: String_nat.induct)
  case (1 n)
  have d: "\<And>d. d < 10 \<Longrightarrow> digitChar d \<in> set digit_chars"
    by (rule digitChar_facts)
  show ?case
  proof (cases "n < 10")
    case True
    then show ?thesis using d [of n] by (subst String_nat.simps) simp
  next
    case False
    then show ?thesis using 1 d [of "n mod 10"] by (subst String_nat.simps) simp
  qed
qed

lemma String_nat_value: "decimal_value (String_nat n) = n"
proof (induction n rule: String_nat.induct)
  case (1 n)
  have d: "\<And>d. d < 10 \<Longrightarrow> digit_of (digitChar d) = d"
    by (rule digitChar_facts)
  show ?case
  proof (cases "n < 10")
    case True
    then show ?thesis using d [of n] by (subst String_nat.simps) (simp add: decimal_value_def)
  next
    case False
    then have "decimal_value (String_nat (n div 10)) = n div 10" using 1 by simp
    with False show ?thesis using d [of "n mod 10"]
      by (subst String_nat.simps) (simp add: decimal_value_def)
  qed
qed

lemma String_nat_leading: "0 < n \<Longrightarrow> hd (String_nat n) \<noteq> CHR ''0''"
proof (induction n rule: String_nat.induct)
  case (1 n)
  have d: "\<And>d. 1 \<le> d \<Longrightarrow> d < 10 \<Longrightarrow> digitChar d \<noteq> CHR ''0''"
    using digitChar_facts(3) by simp
  show ?case
  proof (cases "n < 10")
    case True
    then show ?thesis using d [of n] 1 by (subst String_nat.simps) simp
  next
    case False
    then have "hd (String_nat (n div 10)) \<noteq> CHR ''0''" using 1 by simp
    with False show ?thesis
      by (subst String_nat.simps) (simp add: String_nat_nonempty)
  qed
qed

lemma String_nat_decimal: "decimal_digits (String_nat n) n"
proof -
  have "length (String_nat n) = 1 \<or> hd (String_nat n) \<noteq> CHR ''0''"
  proof (cases "n = 0")
    case True
    then show ?thesis by (subst String_nat.simps) simp
  next
    case False
    then show ?thesis using String_nat_leading by simp
  qed
  then show ?thesis
    using String_nat_digits String_nat_value String_nat_nonempty
    by (simp add: decimal_digits_def)
qed

lemma digit_chars_digit_of: "\<forall>c. c \<in> set digit_chars \<longrightarrow> digit_of c < 10 \<and> digitChar (digit_of c) = c"
  by code_simp

lemma decimal_value_snoc: "decimal_value (ds @ [c]) = digit_of c + 10 * decimal_value ds"
  by (simp add: decimal_value_def)

lemma decimal_value_zero:
  "set ds \<subseteq> set digit_chars \<Longrightarrow> decimal_value ds = 0 \<Longrightarrow> set ds \<subseteq> {CHR ''0''}"
proof (induction ds rule: rev_induct)
  case Nil
  then show ?case by simp
next
  case (snoc c ds)
  then have "digit_of c = 0" and "decimal_value ds = 0"
    by (simp_all add: decimal_value_snoc)
  moreover have "digitChar (digit_of c) = c" using snoc.prems digit_chars_digit_of by simp
  ultimately have "c = CHR ''0''" by (simp add: digitChar_def)
  with snoc \<open>decimal_value ds = 0\<close> show ?case by simp
qed

lemma decimal_digits_unique: "decimal_digits ds n \<Longrightarrow> ds = String_nat n"
proof (induction n arbitrary: ds rule: String_nat.induct)
  case (1 n)
  from "1.prems" have ne: "ds \<noteq> []" and digits: "set ds \<subseteq> set digit_chars"
    and lead: "length ds = 1 \<or> hd ds \<noteq> CHR ''0''" and val: "decimal_value ds = n"
    by (simp_all add: decimal_digits_def)
  from ne obtain ds' c where ds: "ds = ds' @ [c]" by (cases ds rule: rev_cases) auto
  have c: "digit_of c < 10" "digitChar (digit_of c) = c"
    using digits ds digit_chars_digit_of by simp_all
  have n: "n = digit_of c + 10 * decimal_value ds'"
    using val ds by (simp add: decimal_value_snoc)
  show ?case
  proof (cases "n < 10")
    case True
    with n have zero: "decimal_value ds' = 0" and dn: "digit_of c = n" by simp_all
    have "ds' = []"
    proof (rule ccontr)
      assume "ds' \<noteq> []"
      then have "hd ds \<in> set ds'" using ds by simp
      moreover have "set ds' \<subseteq> {CHR ''0''}"
        using decimal_value_zero [OF _ zero] digits ds by simp
      moreover have "hd ds \<noteq> CHR ''0''" using lead ds \<open>ds' \<noteq> []\<close> by simp
      ultimately show False by auto
    qed
    with ds c dn True show ?thesis by (subst String_nat.simps) simp
  next
    case False
    with n c have dv: "decimal_value ds' = n div 10" and dm: "digit_of c = n mod 10" by simp_all
    have "ds' \<noteq> []" using dv False by (auto simp: decimal_value_def)
    moreover have "hd ds' \<noteq> CHR ''0''" using lead ds \<open>ds' \<noteq> []\<close> by simp
    ultimately have "decimal_digits ds' (n div 10)"
      using digits ds dv by (simp add: decimal_digits_def)
    with "1.IH" False have "ds' = String_nat (n div 10)" by simp
    with ds c dm False show ?thesis by (subst String_nat.simps) simp
  qed
qed

lemma drop_whitespace_dropWhile: "drop_whitespace s = dropWhile isWhiteSpace s"
  by (induction s) (simp_all add: isWhiteSpace_chars)

lemma trimmed_trim: "trimmed s = trim s"
  by (simp add: trimmed_def trim_def drop_whitespace_dropWhile)

lemma without_line_breaks_replace: "without_line_breaks s = replace_line_breaks s"
  by (induction s) (simp_all add: replace_line_breaks_def)

lemma without_word_period_replace: "without_word_period s = replace_word_period s"
proof (cases "2 \<le> length s")
  case True
  then obtain u w c where s: "s = u @ [w, c]" using two_last by blast
  show ?thesis
    by (simp add: s replace_word_period_snoc2 without_word_period_def isWordChar_chars
        butlast_append)
next
  case False
  then have "length s < 2" by simp
  with False show ?thesis
    by (simp add: replace_word_period_short without_word_period_def)
qed

lemma sanitizeMessage_sanitized: "sanitizeMessage message = sanitized message"
  by (simp add: sanitizeMessage_def sanitized_def trimmed_trim without_line_breaks_replace
      without_word_period_replace)

lemma trim_unique:
  assumes "message = a @ core @ b"
    and "set a \<subseteq> set whitespace_chars" and "set b \<subseteq> set whitespace_chars"
    and "core = [] \<or> (hd core \<notin> set whitespace_chars \<and> last core \<notin> set whitespace_chars)"
  shows "trim message = core"
proof (cases "core = []")
  case True
  with assms have "\<forall>c \<in> set message. isWhiteSpace c"
    by (auto simp: isWhiteSpace_chars)
  then have d: "dropWhile isWhiteSpace message = []" by simp
  show ?thesis unfolding trim_def d using True by simp
next
  case False
  with assms(4) have ends: "\<not> isWhiteSpace (hd core)" "\<not> isWhiteSpace (last core)"
    by (simp_all add: isWhiteSpace_chars)
  have a: "\<And>c. c \<in> set a \<Longrightarrow> isWhiteSpace c" and b: "\<And>c. c \<in> set (rev b) \<Longrightarrow> isWhiteSpace c"
    using assms(2,3) by (auto simp: isWhiteSpace_chars)
  have "dropWhile isWhiteSpace (a @ core @ b) = dropWhile isWhiteSpace (core @ b)"
    by (rule dropWhile_append2) (rule a)
  then have "dropWhile isWhiteSpace message = dropWhile isWhiteSpace (core @ b)"
    by (simp add: assms(1))
  also have "\<dots> = core @ b"
    using False ends(1) by (cases core) simp_all
  finally have front: "dropWhile isWhiteSpace message = core @ b" .
  have "dropWhile isWhiteSpace (rev b @ rev core) = dropWhile isWhiteSpace (rev core)"
    by (rule dropWhile_append2) (rule b)
  then have "dropWhile isWhiteSpace (rev (core @ b)) = dropWhile isWhiteSpace (rev core)"
    by simp
  also have "\<dots> = rev core"
    using False ends(2) by (cases "rev core") (auto simp: last_rev [symmetric] hd_rev)
  finally show ?thesis by (simp add: trim_def front)
qed

lemma trim_decomposition:
  "\<exists>a core b. message = a @ core @ b \<and> set a \<subseteq> set whitespace_chars \<and>
     set b \<subseteq> set whitespace_chars \<and>
     (core = [] \<or> (hd core \<notin> set whitespace_chars \<and> last core \<notin> set whitespace_chars))"
proof -
  from trim_decompose [of message] obtain a b where
    "message = a @ trim message @ b" "list_all isWhiteSpace a" "list_all isWhiteSpace b"
    by blast
  moreover have "trim message = [] \<or>
      (hd (trim message) \<notin> set whitespace_chars \<and> last (trim message) \<notin> set whitespace_chars)"
    using trim_ends [of message] by (auto simp: isWhiteSpace_chars)
  moreover have "list_all isWhiteSpace a \<Longrightarrow> set a \<subseteq> set whitespace_chars"
    and "list_all isWhiteSpace b \<Longrightarrow> set b \<subseteq> set whitespace_chars"
    by (auto simp: list_all_iff isWhiteSpace_chars)
  ultimately show ?thesis by blast
qed

lemma contents_nonempty:
  "map (\<lambda>choice. sanitizeMessage (content_of choice)) (filter has_content cs) =
   map sanitized (nonempty_contents cs)"
  by (induction cs rule: nonempty_contents.induct)
     (simp_all add: has_content_def content_of_def sanitizeMessage_sanitized)

lemma replace_word_period_rule:
  "replace_word_period t = (if \<exists>u w. t = u @ [w, CHR ''.''] \<and> isWordChar w then butlast t else t)
    \<and> (replace_word_period t = strip_trailing_period t \<longleftrightarrow>
        \<not> (\<exists>u. t = u @ ''.'' \<and> (u = [] \<or> \<not> isWordChar (last u))))"
proof (cases "2 \<le> length t")
  case True
  then obtain u w c where t: "t = u @ [w, c]" using two_last by blast
  have "t = (u @ [w]) @ [c]" using t by simp
  then have ends: "\<And>v. t = v @ ''.'' \<longleftrightarrow> (v = u @ [w] \<and> c = CHR ''.'')"
    by (metis append1_eq_conv)
  show ?thesis
    unfolding ends
    by (auto simp: t replace_word_period_snoc2 strip_trailing_period_def butlast_append)
next
  case False
  then have short: "length t < 2" by simp
  then have no: "\<not> (\<exists>u w. t = u @ [w, CHR ''.''] \<and> isWordChar w)" by auto
  from short consider "t = []" | c where "t = [c]"
    by (cases t; cases "tl t") auto
  then show ?thesis
  proof cases
    case 1
    then show ?thesis by (simp add: replace_word_period_def strip_trailing_period_def)
  next
    case 2
    then show ?thesis by (auto simp: replace_word_period_def strip_trailing_period_def)
  qed
qed

lemma replace_word_period_agrees:
  "sanitizeMessage message = sanitizeMessage_spec message \<longleftrightarrow>
      \<not> (\<exists>u. replace_line_breaks (trim message) = u @ ''.'' \<and>
             (u = [] \<or> \<not> isWordChar (last u)))"
  using replace_word_period_rule [of "replace_line_breaks (trim message)"]
  unfolding sanitizeMessage_def sanitizeMessage_spec_def by blast

text \<open>
  Claim C4 as stated fails: a period at the end stays when the character before it is
  not a letter, a digit or an underscore.
\<close>

theorem sanitizeMessage_counterexample:
  "sanitizeMessage ''Done!.'' = ''Done!.'' \<and> sanitizeMessage_spec ''Done!.'' = ''Done!''"
  by (simp add: sanitizeMessage_def sanitizeMessage_spec_def strip_trailing_period_def trim_def
      replace_line_breaks_def replace_word_period_def isWhiteSpace_def isWordChar_def
      isLower_def isUpper_def isDigit_def)

text \<open>
  Claim C4, amended. Every message is white space, a core that neither starts nor ends
  with white space, and white space; for every such splitting, \<^verbatim>\<open>sanitizeMessage\<close>
  returns the core without its line feeds and carriage returns, and without the last
  character when that text ends with a word character followed by a period; a period
  after any other character, or alone, stays. It is the step-by-step \<open>sanitized\<close>, and
  it agrees with removing any period at the end exactly when the text does not end with
  a period that has nothing or a character that is no word character before it.
\<close>

theorem sanitizeMessage_word_period:
  "sanitizeMessage message = sanitized message \<and>
   (\<exists>a core b. message = a @ core @ b \<and> set a \<subseteq> set whitespace_chars \<and>
      set b \<subseteq> set whitespace_chars \<and>
      (core = [] \<or> (hd core \<notin> set whitespace_chars \<and> last core \<notin> set whitespace_chars))) \<and>
   (\<forall>a core b. message = a @ core @ b \<and> set a \<subseteq> set whitespace_chars \<and>
      set b \<subseteq> set whitespace_chars \<and>
      (core = [] \<or> (hd core \<notin> set whitespace_chars \<and> last core \<notin> set whitespace_chars)) \<longrightarrow>
      sanitizeMessage message =
        (if \<exists>u w. filter (\<lambda>c. c \<noteq> CHR 0x0A \<and> c \<noteq> CHR 0x0D) core = u @ [w, CHR ''.''] \<and>
                  w \<in> set word_chars
         then butlast (filter (\<lambda>c. c \<noteq> CHR 0x0A \<and> c \<noteq> CHR 0x0D) core)
         else filter (\<lambda>c. c \<noteq> CHR 0x0A \<and> c \<noteq> CHR 0x0D) core)) \<and>
   (sanitizeMessage message = sanitizeMessage_spec message \<longleftrightarrow>
      \<not> (\<exists>u. replace_line_breaks (trim message) = u @ ''.'' \<and>
             (u = [] \<or> \<not> isWordChar (last u))))"
proof (intro conjI allI impI)
  show "sanitizeMessage message = sanitized message"
    by (rule sanitizeMessage_sanitized)
  show "\<exists>a core b. message = a @ core @ b \<and> set a \<subseteq> set whitespace_chars \<and>
      set b \<subseteq> set whitespace_chars \<and>
      (core = [] \<or> (hd core \<notin> set whitespace_chars \<and> last core \<notin> set whitespace_chars))"
    by (rule trim_decomposition)
  show "sanitizeMessage message = sanitizeMessage_spec message \<longleftrightarrow>
      \<not> (\<exists>u. replace_line_breaks (trim message) = u @ ''.'' \<and>
             (u = [] \<or> \<not> isWordChar (last u)))"
    by (rule replace_word_period_agrees)
next
  fix a core b
  assume "message = a @ core @ b \<and> set a \<subseteq> set whitespace_chars \<and>
      set b \<subseteq> set whitespace_chars \<and>
      (core = [] \<or> (hd core \<notin> set whitespace_chars \<and> last core \<notin> set whitespace_chars))"
  then have core: "trim message = core" using trim_unique by blast
  define f where "f = filter (\<lambda>c. c \<noteq> CHR 0x0A \<and> c \<noteq> CHR 0x0D) core"
  have "sanitizeMessage message = replace_word_period f"
    by (simp add: sanitizeMessage_def core replace_line_breaks_def f_def)
  also have "\<dots> = (if \<exists>u w. f = u @ [w, CHR ''.''] \<and> isWordChar w then butlast f else f)"
    using replace_word_period_rule [of f] by blast
  also have "\<dots> = (if \<exists>u w. f = u @ [w, CHR ''.''] \<and> w \<in> set word_chars then butlast f else f)"
    by (simp only: isWordChar_chars [rule_format])
  finally show "sanitizeMessage message =
        (if \<exists>u w. filter (\<lambda>c. c \<noteq> CHR 0x0A \<and> c \<noteq> CHR 0x0D) core = u @ [w, CHR ''.''] \<and>
                  w \<in> set word_chars
         then butlast (filter (\<lambda>c. c \<noteq> CHR 0x0A \<and> c \<noteq> CHR 0x0D) core)
         else filter (\<lambda>c. c \<noteq> CHR 0x0A \<and> c \<noteq> CHR 0x0D) core)"
    unfolding f_def .
qed

text \<open>
  Instances: white space at both ends and a line feed inside are removed, and the period
  after a letter too; a period after a parenthesis stays.
\<close>

theorem sanitizeMessage_word_period_witness:
  "sanitizeMessage ([CHR 0x20, CHR 0x09] @ ''Fix '' @ [CHR 0x0A] @ ''typo.'' @ [CHR 0x0D, CHR 0x0A, CHR 0x20]) =
     ''Fix typo'' \<and>
   sanitizeMessage ''Add f().'' = ''Add f().''"
proof -
  have one: "[CHR 0x20, CHR 0x09] @ ''Fix '' @ [CHR 0x0A] @ ''typo.'' @ [CHR 0x0D, CHR 0x0A, CHR 0x20] =
      [CHR 0x20, CHR 0x09] @ (''Fix '' @ [CHR 0x0A] @ ''typo.'') @ [CHR 0x0D, CHR 0x0A, CHR 0x20] \<and>
      set [CHR 0x20, CHR 0x09] \<subseteq> set whitespace_chars \<and>
      set [CHR 0x0D, CHR 0x0A, CHR 0x20] \<subseteq> set whitespace_chars \<and>
      (''Fix '' @ [CHR 0x0A] @ ''typo.'' = [] \<or>
       (hd (''Fix '' @ [CHR 0x0A] @ ''typo.'') \<notin> set whitespace_chars \<and>
        last (''Fix '' @ [CHR 0x0A] @ ''typo.'') \<notin> set whitespace_chars))"
    by (simp add: whitespace_chars_def)
  have two: "''Add f().'' = [] @ ''Add f().'' @ [] \<and> set [] \<subseteq> set whitespace_chars \<and>
      set [] \<subseteq> set whitespace_chars \<and>
      (''Add f().'' = [] \<or>
       (hd ''Add f().'' \<notin> set whitespace_chars \<and> last ''Add f().'' \<notin> set whitespace_chars))"
    by (simp add: whitespace_chars_def)
  from sanitizeMessage_word_period
    [of "[CHR 0x20, CHR 0x09] @ ''Fix '' @ [CHR 0x0A] @ ''typo.'' @ [CHR 0x0D, CHR 0x0A, CHR 0x20]"]
    one
  have r1: "sanitizeMessage ([CHR 0x20, CHR 0x09] @ ''Fix '' @ [CHR 0x0A] @ ''typo.'' @ [CHR 0x0D, CHR 0x0A, CHR 0x20]) =
        (if \<exists>u w. filter (\<lambda>c. c \<noteq> CHR 0x0A \<and> c \<noteq> CHR 0x0D) (''Fix '' @ [CHR 0x0A] @ ''typo.'') = u @ [w, CHR ''.''] \<and>
                  w \<in> set word_chars
         then butlast (filter (\<lambda>c. c \<noteq> CHR 0x0A \<and> c \<noteq> CHR 0x0D) (''Fix '' @ [CHR 0x0A] @ ''typo.''))
         else filter (\<lambda>c. c \<noteq> CHR 0x0A \<and> c \<noteq> CHR 0x0D) (''Fix '' @ [CHR 0x0A] @ ''typo.''))"
    by blast
  from sanitizeMessage_word_period [of "''Add f().''"] two
  have r2: "sanitizeMessage ''Add f().'' =
        (if \<exists>u w. filter (\<lambda>c. c \<noteq> CHR 0x0A \<and> c \<noteq> CHR 0x0D) ''Add f().'' = u @ [w, CHR ''.''] \<and>
                  w \<in> set word_chars
         then butlast (filter (\<lambda>c. c \<noteq> CHR 0x0A \<and> c \<noteq> CHR 0x0D) ''Add f().'')
         else filter (\<lambda>c. c \<noteq> CHR 0x0A \<and> c \<noteq> CHR 0x0D) ''Add f().'')"
    by blast
  show ?thesis
    unfolding r1 r2
    by (simp add: word_chars_def append_eq_Cons_conv Cons_eq_append_conv)
qed

text \<open>
  Claim C5. When the call is answered with a status from 200 to 299 and the body parses
  to a completion, \<^verbatim>\<open>generateCommitMessage\<close> returns the sanitized contents of the choices
  that have a non-empty content, each text once, at the position of its first occurrence:
  the result has no duplicates and the same elements as the sanitized contents.
\<close>

theorem generateCommitMessage_deduplicated:
  "snd (generateCommitMessage world config diff) = [call] \<Longrightarrow>
   https_request world call = ResponseEnd response body \<Longrightarrow>
   statusCode response = Some status \<Longrightarrow> 200 \<le> status \<Longrightarrow> status \<le> 299 \<Longrightarrow>
   JSON_parse world body = Inr completion \<Longrightarrow>
   fst (generateCommitMessage world config diff) =
     Inr (first_occurrences (map sanitized (nonempty_contents (choices completion)))) \<and>
   distinct (first_occurrences (map sanitized (nonempty_contents (choices completion)))) \<and>
   set (first_occurrences (map sanitized (nonempty_contents (choices completion)))) =
     sanitized ` set (nonempty_contents (choices completion))"
proof -
  assume sent: "snd (generateCommitMessage world config diff) = [call]"
    and answer: "https_request world call = ResponseEnd response body"
    and status: "statusCode response = Some status" "200 \<le> status" "status \<le> 299"
    and parsed: "JSON_parse world body = Inr completion"
  from createChatCompletion_response [OF sent [unfolded generateCommitMessage_sent] answer]
    status parsed
  show ?thesis
    by (simp add: generateCommitMessage_fst deduplicateMessages_first_occurrences
        first_occurrences_distinct first_occurrences_set contents_nonempty)
qed

text \<open>
  An instance: one choice has no message, one an empty content, one no content; the
  first and the last choice sanitize to the same text, the last by its line break; two
  entries are returned.
\<close>

theorem generateCommitMessage_deduplicated_witness:
  "fst (generateCommitMessage
     (env_fixed (ResponseEnd \<lparr>statusCode = Some 200, statusMessage = Some ''OK''\<rparr> ''{}'')
        [Choice (Some (ResponseMessage (Some ''Fix typo.''))),
         Choice None,
         Choice (Some (ResponseMessage (Some ''''))),
         Choice (Some (ResponseMessage (Some (''Add test'' @ [CHR 0x0A])))),
         Choice (Some (ResponseMessage None)),
         Choice (Some (ResponseMessage (Some ('' Fix '' @ [CHR 0x0D, CHR 0x0A] @ ''typo''))))])
     config_direct ''diff'') =
   Inr [''Fix typo'', ''Add test'']"
  using generateCommitMessage_deduplicated
    [of "env_fixed (ResponseEnd \<lparr>statusCode = Some 200, statusMessage = Some ''OK''\<rparr> ''{}'')
        [Choice (Some (ResponseMessage (Some ''Fix typo.''))),
         Choice None,
         Choice (Some (ResponseMessage (Some ''''))),
         Choice (Some (ResponseMessage (Some (''Add test'' @ [CHR 0x0A])))),
         Choice (Some (ResponseMessage None)),
         Choice (Some (ResponseMessage (Some ('' Fix '' @ [CHR 0x0D, CHR 0x0A] @ ''typo''))))]"
        config_direct "''diff''" _ "\<lparr>statusCode = Some 200, statusMessage = Some ''OK''\<rparr>" "''{}''" 200
        "\<lparr>choices = [Choice (Some (ResponseMessage (Some ''Fix typo.''))),
         Choice None,
         Choice (Some (ResponseMessage (Some ''''))),
         Choice (Some (ResponseMessage (Some (''Add test'' @ [CHR 0x0A])))),
         Choice (Some (ResponseMessage None)),
         Choice (Some (ResponseMessage (Some ('' Fix '' @ [CHR 0x0D, CHR 0x0A] @ ''typo''))))]\<rparr>",
     OF generateCommitMessage_sent [unfolded createChatCompletion_sent]]
  by (simp add: env_fixed_def first_occurrences_def sanitized_def trimmed_def
      without_word_period_def whitespace_chars_def word_chars_def upt_rec [of 0]
      upt_rec [of 1] upt_rec [of "Suc 0"])

text \<open>
  Claim C6. When the response to the call has a status code below 200 or above 299,
  \<^verbatim>\<open>createChatCompletion\<close> fails with a \<open>KnownError\<close> whose message holds the decimal
  digits of the status code, the status text and the body, and the advice to check the
  service's status exactly for the code 500; for a status code from 200 to 299 the result
  is what \<^verbatim>\<open>JSON.parse\<close> makes of the body, and no such error.
\<close>

theorem createChatCompletion_status:
  "snd (createChatCompletion world useAzure url apiKey json timeout proxy) = [call] \<Longrightarrow>
   https_request world call = ResponseEnd response body \<Longrightarrow>
   statusCode response = Some status \<Longrightarrow>
   (\<exists>digits. decimal_digits digits status) \<and>
   (\<forall>digits. decimal_digits digits status \<longrightarrow>
     fst (createChatCompletion world useAzure url apiKey json timeout proxy) =
       (if status < 200 \<or> 299 < status
        then Inl (KnownError
               (''API Error: '' @ digits @ '' - '' @
                (case statusMessage response of None \<Rightarrow> ''undefined'' | Some text \<Rightarrow> text) @
                (if body = [] then [] else [CHR 0x0A, CHR 0x0A] @ body) @
                (if status = 500
                 then [CHR 0x0A, CHR 0x0A] @ ''Check the API status: https://status.openai.com''
                 else [])))
        else (case JSON_parse world body of
                Inl m \<Rightarrow> Inl (SyntaxError m)
              | Inr completion \<Rightarrow> Inr completion)))"
proof (intro conjI allI impI)
  show "\<exists>digits. decimal_digits digits status"
    using String_nat_decimal by blast
next
  fix digits
  assume sent: "snd (createChatCompletion world useAzure url apiKey json timeout proxy) = [call]"
    and answer: "https_request world call = ResponseEnd response body"
    and status: "statusCode response = Some status"
    and "decimal_digits digits status"
  then have "digits = String_nat status" by (simp add: decimal_digits_unique)
  with createChatCompletion_response [OF sent answer] status
  show "fst (createChatCompletion world useAzure url apiKey json timeout proxy) =
       (if status < 200 \<or> 299 < status
        then Inl (KnownError
               (''API Error: '' @ digits @ '' - '' @
                (case statusMessage response of None \<Rightarrow> ''undefined'' | Some text \<Rightarrow> text) @
                (if body = [] then [] else [CHR 0x0A, CHR 0x0A] @ body) @
                (if status = 500
                 then [CHR 0x0A, CHR 0x0A] @ ''Check the API status: https://status.openai.com''
                 else [])))
        else (case JSON_parse world body of
                Inl m \<Rightarrow> Inl (SyntaxError m)
              | Inr completion \<Rightarrow> Inr completion))"
    by (auto simp: template_nat_def template_string_def split: option.splits)
qed

text \<open>
  Instances: the status 404 without a body, the status 500 with a body, and the status
  200.
\<close>

theorem createChatCompletion_status_witness:
  "fst (createChatCompletion
          (env_fixed (ResponseEnd \<lparr>statusCode = Some 404, statusMessage = Some ''Not Found''\<rparr> []) [])
          False ''https://api.openai.com/v1/chat/completions'' ''sk-abc''
          \<lparr>req_model = ''gpt-3.5-turbo'', req_messages = [], req_temperature = 7 / 10, req_top_p = 1,
           req_frequency_penalty = 0, req_presence_penalty = 0, req_max_tokens = 200,
           req_stream = False, req_n = 1\<rparr> 10000 None) =
     Inl (KnownError ''API Error: 404 - Not Found'') \<and>
   fst (createChatCompletion
          (env_fixed (ResponseEnd \<lparr>statusCode = Some 500, statusMessage = Some ''Internal Server Error''\<rparr> ''overloaded'') [])
          True ''https://demo.openai.azure.com/chat'' ''azure-key''
          \<lparr>req_model = ''gpt-3.5-turbo'', req_messages = [], req_temperature = 7 / 10, req_top_p = 1,
           req_frequency_penalty = 0, req_presence_penalty = 0, req_max_tokens = 200,
           req_stream = False, req_n = 1\<rparr> 10000 None) =
     Inl (KnownError (''API Error: 500 - Internal Server Error'' @ [CHR 0x0A, CHR 0x0A] @ ''overloaded''
          @ [CHR 0x0A, CHR 0x0A] @ ''Check the API status: https://status.openai.com'')) \<and>
   fst (createChatCompletion
          (env_fixed (ResponseEnd \<lparr>statusCode = Some 200, statusMessage = Some ''OK''\<rparr> ''{}'') [])
          False ''https://api.openai.com/v1/chat/completions'' ''sk-abc''
          \<lparr>req_model = ''gpt-3.5-turbo'', req_messages = [], req_temperature = 7 / 10, req_top_p = 1,
           req_frequency_penalty = 0, req_presence_penalty = 0, req_max_tokens = 200,
           req_stream = False, req_n = 1\<rparr> 10000 None) =
     Inr \<lparr>choices = []\<rparr>"
proof -
  have d404: "decimal_digits ''404'' 404" and d500: "decimal_digits ''500'' 500"
    and d200: "decimal_digits ''200'' 200"
    by (simp_all add: decimal_digits_def decimal_value_def digit_of_def digit_chars_def)
  note a = createChatCompletion_status
    [of "env_fixed (ResponseEnd \<lparr>statusCode = Some 404, statusMessage = Some ''Not Found''\<rparr> []) []"
        False "''https://api.openai.com/v1/chat/completions''" "''sk-abc''"
        "\<lparr>req_model = ''gpt-3.5-turbo'', req_messages = [], req_temperature = 7 / 10, req_top_p = 1,
           req_frequency_penalty = 0, req_presence_penalty = 0, req_max_tokens = 200,
           req_stream = False, req_n = 1\<rparr>" 10000 None _
        "\<lparr>statusCode = Some 404, statusMessage = Some ''Not Found''\<rparr>" "[]" 404,
     OF createChatCompletion_sent]
  note b = createChatCompletion_status
    [of "env_fixed (ResponseEnd \<lparr>statusCode = Some 500, statusMessage = Some ''Internal Server Error''\<rparr> ''overloaded'') []"
        True "''https://demo.openai.azure.com/chat''" "''azure-key''"
        "\<lparr>req_model = ''gpt-3.5-turbo'', req_messages = [], req_temperature = 7 / 10, req_top_p = 1,
           req_frequency_penalty = 0, req_presence_penalty = 0, req_max_tokens = 200,
           req_stream = False, req_n = 1\<rparr>" 10000 None _
        "\<lparr>statusCode = Some 500, statusMessage = Some ''Internal Server Error''\<rparr>" "''overloaded''" 500,
     OF createChatCompletion_sent]
  note c = createChatCompletion_status
    [of "env_fixed (ResponseEnd \<lparr>statusCode = Some 200, statusMessage = Some ''OK''\<rparr> ''{}'') []"
        False "''https://api.openai.com/v1/chat/completions''" "''sk-abc''"
        "\<lparr>req_model = ''gpt-3.5-turbo'', req_messages = [], req_temperature = 7 / 10, req_top_p = 1,
           req_frequency_penalty = 0, req_presence_penalty = 0, req_max_tokens = 200,
           req_stream = False, req_n = 1\<rparr>" 10000 None _
        "\<lparr>statusCode = Some 200, statusMessage = Some ''OK''\<rparr>" "''{}''" 200,
     OF createChatCompletion_sent]
  from a d404 b d500 c d200 show ?thesis
    by (simp add: env_fixed_def)
qed

text \<open>
  A \<open>KnownError\<close> of \<^verbatim>\<open>createChatCompletion\<close> goes through \<^verbatim>\<open>generateCommitMessage\<close>
  unchanged: it has no \<^verbatim>\<open>code\<close>.
\<close>

lemma generateCommitMessage_api_error:
  "fst (createChatCompletion world (USE_AZURE config)
       (if USE_AZURE config then AZURE_OPENAI_ENDPOINT config
        else ''https://api.openai.com/v1/chat/completions'')
       (if USE_AZURE config then AZURE_OPENAI_KEY config else OPENAI_KEY config)
       \<lparr>req_model = cfg_model config,
        req_messages =
          [Message ''system''
             (generatePrompt world (cfg_locale config) (cfg_max_length config) (cfg_type config)),
           Message ''user'' diff],
        req_temperature = 7 / 10, req_top_p = 1, req_frequency_penalty = 0,
        req_presence_penalty = 0, req_max_tokens = 200, req_stream = False,
        req_n = cfg_generate config\<rparr>
       (cfg_timeout config) (cfg_proxy config)) = Inl (KnownError m) \<Longrightarrow>
   fst (generateCommitMessage world config diff) = Inl (KnownError m)"
  by (simp add: generateCommitMessage_fst error_code_def)

text \<open>
  Claim C7. \<^verbatim>\<open>generateCommitMessage\<close> sends one call. In gateway mode its URL is the
  configured gateway endpoint and its header \<^verbatim>\<open>api-key\<close> holds the gateway key, with no
  \<^verbatim>\<open>Authorization\<close> header; otherwise its URL is the fixed chat-completion endpoint and
  its header \<^verbatim>\<open>Authorization\<close> holds \<^verbatim>\<open>Bearer\<close> and the direct key, with no \<^verbatim>\<open>api-key\<close>
  header.
\<close>

theorem generateCommitMessage_request:
  "\<exists>call. snd (generateCommitMessage world config diff) = [call] \<and>
     call_url call =
       (if USE_AZURE config then AZURE_OPENAI_ENDPOINT config
        else ''https://api.openai.com/v1/chat/completions'') \<and>
     map_of (call_headers call) ''api-key'' =
       (if USE_AZURE config then Some (AZURE_OPENAI_KEY config) else None) \<and>
     map_of (call_headers call) ''Authorization'' =
       (if USE_AZURE config then None else Some (''Bearer '' @ OPENAI_KEY config))"
  by (simp add: generateCommitMessage_sent createChatCompletion_sent httpsPost_call_def
      update_conv' Let_def)

text \<open>Instances: one configuration in gateway mode, one in direct mode.\<close>

theorem generateCommitMessage_request_witness:
  "(\<exists>call. snd (generateCommitMessage (env_fixed TimeoutEvent []) config_gateway ''diff'') = [call] \<and>
      call_url call = ''https://demo.openai.azure.com/chat'' \<and>
      map_of (call_headers call) ''api-key'' = Some ''azure-key'' \<and>
      map_of (call_headers call) ''Authorization'' = None) \<and>
   (\<exists>call. snd (generateCommitMessage (env_fixed TimeoutEvent []) config_direct ''diff'') = [call] \<and>
      call_url call = ''https://api.openai.com/v1/chat/completions'' \<and>
      map_of (call_headers call) ''api-key'' = None \<and>
      map_of (call_headers call) ''Authorization'' = Some ''Bearer sk-abc'')"
  using generateCommitMessage_request [of "env_fixed TimeoutEvent []" config_gateway "''diff''"]
    generateCommitMessage_request [of "env_fixed TimeoutEvent []" config_direct "''diff''"]
  by (simp add: config_gateway_def config_direct_def)

end
